theory Spec2Isabelle
  imports Complex_Main "HOL-Library.Log_Nat"
begin

section \<open>JavaScript values shared by both deck engines\<close>

text \<open>
  The repository holds two revisions of one deck engine: \<^verbatim>\<open>assets/js/deck.js\<close> (names
  prefixed \<open>deck_\<close> below) and a second script (names prefixed \<open>p1_\<close>) that adds narration
  and replaces the music widget. Both are immediately invoked closures over module
  variables; the model passes those variables and the parts of the document the scripts
  touch as an explicit state. An element that \<^verbatim>\<open>getElementById\<close> does not find is
  \<open>None\<close>. The document is taken as static: no element appears or disappears while the
  deck runs.
\<close>

datatype js_error = TypeError

text \<open>
  How a function body ends: normally, or by an uncaught exception. The state an exception
  leaves behind is kept, since a handler that throws half way has already written to the
  module variables.
\<close>

datatype 's completion = Normal 's | Throw js_error 's

fun state_of :: "'s completion \<Rightarrow> 's" where
  "state_of (Normal s) = s"
| "state_of (Throw e s) = s"

fun map_completion :: "('s \<Rightarrow> 't) \<Rightarrow> 's completion \<Rightarrow> 't completion" where
  "map_completion f (Normal s) = Normal (f s)"
| "map_completion f (Throw e s) = Throw e (f s)"

text \<open>Sequencing: a statement after one that threw is not reached.\<close>

definition bind :: "'s completion \<Rightarrow> ('s \<Rightarrow> 's completion) \<Rightarrow> 's completion" where
  "bind c f = (case c of Normal s \<Rightarrow> f s | Throw e s \<Rightarrow> Throw e s)"

text \<open>Number-to-string conversion of the integers the scripts concatenate into text.\<close>

definition digit_char :: "nat \<Rightarrow> char" where
  "digit_char d = ''0123456789'' ! d"

fun show_nat :: "nat \<Rightarrow> string" where
  "show_nat n = (if n < 10 then [digit_char n] else show_nat (n div 10) @ [digit_char (n mod 10)])"

declare show_nat.simps [simp del]

definition show_int :: "int \<Rightarrow> string" where
  "show_int i = (if i < 0 then CHR ''-'' # show_nat (nat (- i)) else show_nat (nat i))"

text \<open>The remainder operator \<^verbatim>\<open>%\<close>: the sign of the result is the sign of the dividend.\<close>

definition js_rem :: "int \<Rightarrow> int \<Rightarrow> int" where
  "js_rem a b = sgn a * (\<bar>a\<bar> mod \<bar>b\<bar>)"

text \<open>
  A Number is an IEEE 754 double. A finite double is a rational number, and the model keeps
  a Number as the rational it denotes. \<open>double x\<close> is the Number value for \<open>x\<close>: the double
  nearest to \<open>x\<close>, a tie going to the even significand, with 53 bits of significand and
  the least exponent \<open>-1074\<close>. \<open>binade x\<close> is the exponent of the power of two at or below
  \<open>\<bar>x\<bar>\<close>. The operators \<^verbatim>\<open>/\<close> and \<^verbatim>\<open>*\<close> round the exact quotient and product. Integers of
  magnitude up to \<open>2 ^ 53\<close>, such as slide indices and slide counts, are doubles. What the
  operands of the scripts cannot produce is left out: a zero divisor, and results of
  magnitude \<open>2 ^ 1024\<close> or more, which are \<^verbatim>\<open>Infinity\<close>.
\<close>

definition round_ties_even :: "rat \<Rightarrow> int" where
  "round_ties_even y =
     (let f = \<lfloor>y\<rfloor>; r = y - of_int f
      in if r < 1 / 2 then f else if 1 / 2 < r then f + 1 else if even f then f else f + 1)"

definition binade :: "rat \<Rightarrow> int" where
  "binade x = (if 1 \<le> \<bar>x\<bar> then bitlen \<lfloor>\<bar>x\<bar>\<rfloor> - 1 else - bitlen (\<lceil>1 / \<bar>x\<bar>\<rceil> - 1))"

definition double :: "rat \<Rightarrow> rat" where
  "double x =
     (if x = 0 then 0
      else (let q = max (binade x - 52) (- 1074)
            in of_int (round_ties_even (x / 2 powi q)) * 2 powi q))"

definition js_divide :: "rat \<Rightarrow> rat \<Rightarrow> rat" where
  "js_divide a b = double (a / b)"

definition js_multiply :: "rat \<Rightarrow> rat \<Rightarrow> rat" where
  "js_multiply a b = double (a * b)"


section \<open>Slide navigator\<close>

record slide =
  active :: bool
  speaker_note :: "string option"

text \<open>
  The navigation variables and the elements \<^verbatim>\<open>progress-fill\<close>, \<^verbatim>\<open>slide-counter\<close>,
  \<^verbatim>\<open>prev-btn\<close>, \<^verbatim>\<open>next-btn\<close> and \<^verbatim>\<open>notes-content\<close>. The script assigns to the width
  of the progress fill the decimal text of a Number followed by \<^verbatim>\<open>%\<close>; that text
  determines the Number, and the state keeps the Number.
\<close>

record nav =
  slides :: "slide list"
  currentIndex :: nat
  progress_fill :: "rat option"
  slide_counter :: "string option"
  prev_btn :: "bool option"
  next_btn :: "bool option"
  notes_content :: "string option"

datatype nav_op = GoTo int | Next | Prev

text \<open>A write to the music widget, as the script performs it.\<close>

datatype dom_op = ClassAdd string | ClassRemove string | SetDisplay string

text \<open>
  deck.js: the element \<^verbatim>\<open>music-player\<close> (whether its class list holds \<^verbatim>\<open>visible\<close>), the
  module variable \<^verbatim>\<open>musicActive\<close>, and the trace of writes to the element.
\<close>

record deckjs = nav +
  music_player :: "bool option"
  musicActive :: bool
  music_log :: "dom_op list"

text \<open>
  Second script: the element \<^verbatim>\<open>spotify-box\<close> (its \<^verbatim>\<open>style.display\<close>) and the trace of
  writes to it.
\<close>

record part001 = nav +
  spotify_box :: "string option"
  box_log :: "dom_op list"

subsection \<open>deck.js, lines 65 to 161\<close>

definition deck_updateProgress :: "'a nav_scheme \<Rightarrow> 'a nav_scheme" where
  "deck_updateProgress s =
     (case progress_fill s of
        None \<Rightarrow> s
      | Some w \<Rightarrow>
          s\<lparr>progress_fill :=
              Some (if length (slides s) > 1
                    then js_multiply
                           (js_divide (of_nat (currentIndex s)) (of_int (int (length (slides s)) - 1))) 100
                    else 100)\<rparr>)"

definition deck_updateCounter :: "'a nav_scheme \<Rightarrow> 'a nav_scheme" where
  "deck_updateCounter s =
     (let s1 = (case slide_counter s of
                  None \<Rightarrow> s
                | Some t \<Rightarrow>
                    s\<lparr>slide_counter :=
                        Some (show_nat (currentIndex s + 1) @ '' / '' @ show_nat (length (slides s)))\<rparr>);
          s2 = (case prev_btn s1 of
                  None \<Rightarrow> s1
                | Some d \<Rightarrow> s1\<lparr>prev_btn := Some (currentIndex s1 = 0)\<rparr>)
      in (case next_btn s2 of
            None \<Rightarrow> s2
          | Some d \<Rightarrow>
              s2\<lparr>next_btn := Some (int (currentIndex s2) = int (length (slides s2)) - 1)\<rparr>))"

definition deck_updateNotes :: "'a nav_scheme \<Rightarrow> 'a nav_scheme" where
  "deck_updateNotes s =
     (case notes_content s of
        None \<Rightarrow> s
      | Some t \<Rightarrow>
          s\<lparr>notes_content :=
              Some (if currentIndex s < length (slides s)
                    then (case speaker_note (slides s ! currentIndex s) of
                            None \<Rightarrow> []
                          | Some note \<Rightarrow> note)
                    else [])\<rparr>)"

definition deck_updateMusic :: "deckjs \<Rightarrow> deckjs" where
  "deck_updateMusic s =
     (case music_player s of
        None \<Rightarrow> s
      | Some vis \<Rightarrow>
          (let musicStart = int (length (slides s)) - 3;
               shouldShow = (int (currentIndex s) \<ge> musicStart)
           in if shouldShow \<and> \<not> musicActive s
              then s\<lparr>music_player := Some True, musicActive := True,
                     music_log := music_log s @ [ClassAdd ''visible'']\<rparr>
              else if \<not> shouldShow \<and> musicActive s
              then s\<lparr>music_player := Some False, musicActive := False,
                     music_log := music_log s @ [ClassRemove ''visible'']\<rparr>
              else s))"

text \<open>
  \<^verbatim>\<open>slides[currentIndex].classList\<close> throws when \<^verbatim>\<open>currentIndex\<close> is not an index of
  \<^verbatim>\<open>slides\<close>; nothing has been written at that point.
\<close>

definition deck_goToSlide :: "int \<Rightarrow> deckjs \<Rightarrow> deckjs completion" where
  "deck_goToSlide index s =
     (if index < 0 \<or> index \<ge> int (length (slides s)) then Normal s
      else if currentIndex s \<ge> length (slides s) then Throw TypeError s
      else
        (let s1 = s\<lparr>slides := (slides s)[currentIndex s := (slides s ! currentIndex s)\<lparr>active := False\<rparr>]\<rparr>;
             s2 = s1\<lparr>currentIndex := nat index\<rparr>;
             s3 = s2\<lparr>slides := (slides s2)[currentIndex s2 := (slides s2 ! currentIndex s2)\<lparr>active := True\<rparr>]\<rparr>
         in Normal (deck_updateMusic (deck_updateNotes (deck_updateCounter (deck_updateProgress s3))))))"

definition deck_nextSlide :: "deckjs \<Rightarrow> deckjs completion" where
  "deck_nextSlide s = deck_goToSlide (min (int (length (slides s)) - 1) (int (currentIndex s) + 1)) s"

definition deck_prevSlide :: "deckjs \<Rightarrow> deckjs completion" where
  "deck_prevSlide s = deck_goToSlide (max 0 (int (currentIndex s) - 1)) s"

text \<open>
  The callers of the navigator (the click listeners of lines 97 and 98 and the key
  listener of lines 102 to 118), as requests: any index may be asked for. A listener that
  throws leaves its state behind and the next event is still delivered.
\<close>

definition deck_nav_step :: "nav_op \<Rightarrow> deckjs \<Rightarrow> deckjs completion" where
  "deck_nav_step r s =
     (case r of GoTo i \<Rightarrow> deck_goToSlide i s | Next \<Rightarrow> deck_nextSlide s | Prev \<Rightarrow> deck_prevSlide s)"

definition deck_nav_run :: "nav_op list \<Rightarrow> deckjs \<Rightarrow> deckjs" where
  "deck_nav_run rs s = foldl (\<lambda>s r. state_of (deck_nav_step r s)) s rs"

subsection \<open>Second script, lines 67 to 94 and 236 to 241\<close>

definition p1_updateProgress :: "'a nav_scheme \<Rightarrow> 'a nav_scheme" where
  "p1_updateProgress s =
     (case progress_fill s of
        None \<Rightarrow> s
      | Some w \<Rightarrow>
          s\<lparr>progress_fill :=
              Some (if length (slides s) > 1
                    then js_multiply
                           (js_divide (of_nat (currentIndex s)) (of_int (int (length (slides s)) - 1))) 100
                    else 100)\<rparr>)"

definition p1_updateCounter :: "'a nav_scheme \<Rightarrow> 'a nav_scheme" where
  "p1_updateCounter s =
     (let s1 = (case slide_counter s of
                  None \<Rightarrow> s
                | Some t \<Rightarrow>
                    s\<lparr>slide_counter :=
                        Some (show_nat (currentIndex s + 1) @ '' / '' @ show_nat (length (slides s)))\<rparr>);
          s2 = (case prev_btn s1 of
                  None \<Rightarrow> s1
                | Some d \<Rightarrow> s1\<lparr>prev_btn := Some (currentIndex s1 = 0)\<rparr>)
      in (case next_btn s2 of
            None \<Rightarrow> s2
          | Some d \<Rightarrow>
              s2\<lparr>next_btn := Some (int (currentIndex s2) = int (length (slides s2)) - 1)\<rparr>))"

definition p1_updateNotes :: "'a nav_scheme \<Rightarrow> 'a nav_scheme" where
  "p1_updateNotes s =
     (case notes_content s of
        None \<Rightarrow> s
      | Some t \<Rightarrow>
          s\<lparr>notes_content :=
              Some (if currentIndex s < length (slides s)
                    then (case speaker_note (slides s ! currentIndex s) of
                            None \<Rightarrow> []
                          | Some note \<Rightarrow> note)
                    else [])\<rparr>)"

definition p1_updateMusic :: "part001 \<Rightarrow> part001" where
  "p1_updateMusic s =
     (case spotify_box s of
        None \<Rightarrow> s
      | Some d \<Rightarrow>
          (let show = (int (currentIndex s) \<ge> int (length (slides s)) - 3);
               v = (if show then ''block'' else ''none'')
           in s\<lparr>spotify_box := Some v, box_log := box_log s @ [SetDisplay v]\<rparr>))"

definition p1_goToSlide :: "int \<Rightarrow> part001 \<Rightarrow> part001 completion" where
  "p1_goToSlide index s =
     (if index < 0 \<or> index \<ge> int (length (slides s)) then Normal s
      else if currentIndex s \<ge> length (slides s) then Throw TypeError s
      else
        (let s1 = s\<lparr>slides := (slides s)[currentIndex s := (slides s ! currentIndex s)\<lparr>active := False\<rparr>]\<rparr>;
             s2 = s1\<lparr>currentIndex := nat index\<rparr>;
             s3 = s2\<lparr>slides := (slides s2)[currentIndex s2 := (slides s2 ! currentIndex s2)\<lparr>active := True\<rparr>]\<rparr>
         in Normal (p1_updateMusic (p1_updateNotes (p1_updateCounter (p1_updateProgress s3))))))"

definition p1_nextSlide :: "part001 \<Rightarrow> part001 completion" where
  "p1_nextSlide s = p1_goToSlide (min (int (length (slides s)) - 1) (int (currentIndex s) + 1)) s"

definition p1_prevSlide :: "part001 \<Rightarrow> part001 completion" where
  "p1_prevSlide s = p1_goToSlide (max 0 (int (currentIndex s) - 1)) s"


text \<open>
  The callers of the navigator (the click listeners of lines 99 and 100 and the key
  listener of lines 104 to 120), as requests: any index may be asked for. A listener that
  throws leaves its state behind and the next event is still delivered.
\<close>

definition p1_nav_step :: "nav_op \<Rightarrow> part001 \<Rightarrow> part001 completion" where
  "p1_nav_step r s =
     (case r of GoTo i \<Rightarrow> p1_goToSlide i s | Next \<Rightarrow> p1_nextSlide s | Prev \<Rightarrow> p1_prevSlide s)"

definition p1_nav_run :: "nav_op list \<Rightarrow> part001 \<Rightarrow> part001" where
  "p1_nav_run rs s = foldl (\<lambda>s r. state_of (p1_nav_step r s)) s rs"


subsection \<open>The progress fraction of the specification\<close>

text \<open>
  The fraction the specification names for slide \<open>i\<close> of \<open>n\<close> slides, over the rationals.
  It is not part of either script: the percentage the scripts compute is compared with it.
\<close>

definition spec_progress :: "nat \<Rightarrow> nat \<Rightarrow> rat" where
  "spec_progress i n = (if 1 < n then of_nat i / of_nat (n - 1) else 1)"


subsection \<open>Loading the page in deck.js, lines 7 to 30 and 145\<close>




subsection \<open>Example pages\<close>

text \<open>
  A page of \<open>n\<close> slides that shows slide \<open>i\<close>, with every element the navigator addresses
  present and the music widget hidden: once as deck.js sees it, once as the second script does.
\<close>

definition deck_example :: "nat \<Rightarrow> nat \<Rightarrow> deckjs" where
  "deck_example n i =
     \<lparr>slides = map (\<lambda>k. \<lparr>active = (k = i), speaker_note = None\<rparr>) [0..<n],
      currentIndex = i, progress_fill = Some 0, slide_counter = Some [],
      prev_btn = Some False, next_btn = Some False, notes_content = Some [],
      music_player = Some False, musicActive = False, music_log = []\<rparr>"

definition p1_example :: "nat \<Rightarrow> nat \<Rightarrow> part001" where
  "p1_example n i =
     \<lparr>slides = map (\<lambda>k. \<lparr>active = (k = i), speaker_note = None\<rparr>) [0..<n],
      currentIndex = i, progress_fill = Some 0, slide_counter = Some [],
      prev_btn = Some False, next_btn = Some False, notes_content = Some [],
      spotify_box = Some ''none'', box_log = []\<rparr>"


section \<open>Activity timer\<close>

record button =
  b_text :: string
  b_class :: string
  b_disabled :: bool

record display =
  d_text :: string
  d_class :: string

record step =
  label :: string
  duration :: int

text \<open>
  The timer's module variables, the elements \<^verbatim>\<open>timer-btn\<close>, \<^verbatim>\<open>timer-reset\<close> (only
  whether it exists), \<^verbatim>\<open>timer-display\<close> and \<^verbatim>\<open>timer-step-name\<close>, and the browser's
  table of active interval timers. \<^verbatim>\<open>setInterval\<close> hands out the handle \<open>next_interval\<close>
  and counts it up, so a handle is never issued twice. \<^verbatim>\<open>timerInterval = null\<close> is \<open>None\<close>.
  Both scripts declare the same variables and address the same elements; the table
  \<^verbatim>\<open>ACTIVITY_STEPS\<close> is a parameter of every function that reads it.
\<close>

record timer =
  timerInterval :: "nat option"
  timerSeconds :: int
  timerRunning :: bool
  timerStepIndex :: nat
  timer_btn :: "button option"
  timer_reset :: bool
  timer_display :: "display option"
  timer_step_name :: "string option"
  intervals :: "nat set"
  next_interval :: nat

datatype timer_event = ClickTimerBtn | ClickTimerReset | IntervalFires nat

definition clearInterval :: "nat option \<Rightarrow> timer \<Rightarrow> timer" where
  "clearInterval h s = (case h of None \<Rightarrow> s | Some i \<Rightarrow> s\<lparr>intervals := intervals s - {i}\<rparr>)"

definition setInterval :: "timer \<Rightarrow> nat \<times> timer" where
  "setInterval s =
     (next_interval s,
      s\<lparr>intervals := insert (next_interval s) (intervals s), next_interval := next_interval s + 1\<rparr>)"

text \<open>The module variables as the script declares them, before \<^verbatim>\<open>setupTimer\<close> has run.\<close>

definition page_load :: "button option \<Rightarrow> bool \<Rightarrow> display option \<Rightarrow> string option \<Rightarrow> timer" where
  "page_load btn resetBtn disp stepEl =
     \<lparr>timerInterval = None, timerSeconds = 0, timerRunning = False, timerStepIndex = 0,
      timer_btn = btn, timer_reset = resetBtn, timer_display = disp, timer_step_name = stepEl,
      intervals = {}, next_interval = 1\<rparr>"

subsection \<open>deck.js, lines 15 to 20 and 164 to 230\<close>

definition deck_ACTIVITY_STEPS :: "step list" where
  "deck_ACTIVITY_STEPS =
     [\<lparr>label = ''Pick one THRIVE module + one evidence principle. Write a one-sentence workshop goal.'',
       duration = 180\<rparr>,
      \<lparr>label = ''Plan your hardest moment. A participant says something harmful. Write what you'' @ [CHR 0x27] @ ''d say and do.'',
       duration = 180\<rparr>,
      \<lparr>label = ''Pair up. Pitch your workshop in 60 seconds. Your partner gives you one challenge.'',
       duration = 120\<rparr>,
      \<lparr>label = ''Whole class: share the toughest challenge you received.'',
       duration = 120\<rparr>]"

definition deck_renderTimer :: "step list \<Rightarrow> timer \<Rightarrow> timer" where
  "deck_renderTimer steps s =
     (case timer_display s of
        None \<Rightarrow> s
      | Some d \<Rightarrow>
          (let m = timerSeconds s div 60;
               sec = js_rem (timerSeconds s) 60;
               txt = (if m < 10 then ''0'' else []) @ show_int m @ '':'' @
                     (if sec < 10 then ''0'' else []) @ show_int sec;
               cls = ''timer-display'';
               cls2 = (if timerSeconds s \<le> 10 \<and> timerSeconds s > 0 then cls @ '' danger''
                       else if timerSeconds s \<le> 30 then cls @ '' warning''
                       else cls);
               s1 = s\<lparr>timer_display := Some \<lparr>d_text = txt, d_class = cls2\<rparr>\<rparr>
           in (case timer_step_name s1 of
                 None \<Rightarrow> s1
               | Some t \<Rightarrow>
                   if timerStepIndex s1 < length steps
                   then s1\<lparr>timer_step_name :=
                           Some (''Step '' @ show_nat (timerStepIndex s1 + 1) @ '': '' @
                                 label (steps ! timerStepIndex s1))\<rparr>
                   else s1\<lparr>timer_step_name := Some ''Activity complete.''\<rparr>)))"

text \<open>
  \<^verbatim>\<open>ACTIVITY_STEPS[0].duration\<close> throws on an empty table, after the statements before it
  have taken effect.
\<close>

definition deck_setupTimer :: "step list \<Rightarrow> timer \<Rightarrow> timer completion" where
  "deck_setupTimer steps s =
     (case timer_btn s of
        None \<Rightarrow> Normal s
      | Some b \<Rightarrow>
          (let s1 = s\<lparr>timerStepIndex := 0\<rparr>
           in (case steps of
                 [] \<Rightarrow> Throw TypeError s1
               | st # rest \<Rightarrow> Normal (deck_renderTimer steps (s1\<lparr>timerSeconds := duration st\<rparr>)))))"

text \<open>The callback that \<^verbatim>\<open>startTimer\<close> hands to \<^verbatim>\<open>setInterval\<close> (lines 181 to 195).\<close>

definition deck_tick :: "step list \<Rightarrow> timer \<Rightarrow> timer" where
  "deck_tick steps s =
     (let s1 = s\<lparr>timerSeconds := timerSeconds s - 1\<rparr>;
          s2 = (if timerSeconds s1 \<le> 0
                then (let s3 = s1\<lparr>timerStepIndex := timerStepIndex s1 + 1\<rparr>
                      in if timerStepIndex s3 < length steps
                         then s3\<lparr>timerSeconds := duration (steps ! timerStepIndex s3)\<rparr>
                         else (let s4 = clearInterval (timerInterval s3) s3;
                                   s5 = s4\<lparr>timerRunning := False, timerSeconds := 0\<rparr>
                               in s5\<lparr>timer_btn :=
                                       map_option (\<lambda>b. b\<lparr>b_text := ''Done'', b_disabled := True\<rparr>)
                                         (timer_btn s5)\<rparr>))
                else s1)
      in deck_renderTimer steps s2)"

definition deck_startTimer :: "timer \<Rightarrow> timer" where
  "deck_startTimer s =
     (let s1 = s\<lparr>timerRunning := True\<rparr>;
          s2 = s1\<lparr>timer_btn :=
                   map_option (\<lambda>b. b\<lparr>b_text := ''Pause'', b_class := ''timer-btn timer-btn--pause''\<rparr>)
                     (timer_btn s1)\<rparr>;
          (h, s3) = setInterval s2
      in s3\<lparr>timerInterval := Some h\<rparr>)"

definition deck_pauseTimer :: "timer \<Rightarrow> timer" where
  "deck_pauseTimer s =
     (let s1 = s\<lparr>timerRunning := False\<rparr>;
          s2 = clearInterval (timerInterval s1) s1
      in s2\<lparr>timer_btn :=
              map_option (\<lambda>b. b\<lparr>b_text := ''Resume'', b_class := ''timer-btn timer-btn--start''\<rparr>)
                (timer_btn s2)\<rparr>)"

definition deck_resetTimer :: "step list \<Rightarrow> timer \<Rightarrow> timer completion" where
  "deck_resetTimer steps s =
     (let s1 = clearInterval (timerInterval s) s;
          s2 = s1\<lparr>timerRunning := False, timerStepIndex := 0\<rparr>
      in (case steps of
            [] \<Rightarrow> Throw TypeError s2
          | st # rest \<Rightarrow>
              (let s3 = s2\<lparr>timerSeconds := duration st\<rparr>;
                   s4 = s3\<lparr>timer_btn :=
                            map_option
                              (\<lambda>b. b\<lparr>b_text := ''Start'', b_class := ''timer-btn timer-btn--start'',
                                      b_disabled := False\<rparr>)
                              (timer_btn s3)\<rparr>
               in Normal (deck_renderTimer steps s4))))"

text \<open>
  The listeners that \<^verbatim>\<open>setupTimer\<close> registers (lines 168 to 171), and the browser that
  calls them: a click reaches the listener of a button that exists and is not disabled,
  the listeners exist only when \<^verbatim>\<open>timer-btn\<close> does, and an interval fires only while
  its handle is in the table of active timers.
\<close>

definition deck_timer_event :: "step list \<Rightarrow> timer_event \<Rightarrow> timer \<Rightarrow> timer" where
  "deck_timer_event steps ev s =
     (case ev of
        ClickTimerBtn \<Rightarrow>
          (case timer_btn s of
             None \<Rightarrow> s
           | Some b \<Rightarrow>
               if b_disabled b then s
               else if timerRunning s then deck_pauseTimer s
               else deck_startTimer s)
      | ClickTimerReset \<Rightarrow>
          (if timer_btn s \<noteq> None \<and> timer_reset s then state_of (deck_resetTimer steps s) else s)
      | IntervalFires h \<Rightarrow> (if h \<in> intervals s then deck_tick steps s else s))"

definition deck_timer_run :: "step list \<Rightarrow> timer_event list \<Rightarrow> timer \<Rightarrow> timer" where
  "deck_timer_run steps evs s = foldl (\<lambda>s ev. deck_timer_event steps ev s) s evs"

subsection \<open>Second script, lines 15 to 20 and 244 to 310\<close>


definition p1_ACTIVITY_STEPS :: "step list" where
  "p1_ACTIVITY_STEPS =
     [\<lparr>label = ''From Video 1: Name one principle you would demand before funding any prevention program.'',
       duration = 60\<rparr>,
      \<lparr>label = ''From Video 2: Which THRIVE module would you facilitate? Write one sentence why.'',
       duration = 60\<rparr>,
      \<lparr>label = ''From Video 3: A participant pushes back. Write what you would say using one facilitation move.'',
       duration = 60\<rparr>,
      \<lparr>label = ''Pair up: Share your three answers. Your partner picks the strongest one.'',
       duration = 60\<rparr>]"

definition p1_renderTimer :: "step list \<Rightarrow> timer \<Rightarrow> timer" where
  "p1_renderTimer steps s =
     (case timer_display s of
        None \<Rightarrow> s
      | Some d \<Rightarrow>
          (let m = timerSeconds s div 60;
               sec = js_rem (timerSeconds s) 60;
               txt = (if m < 10 then ''0'' else []) @ show_int m @ '':'' @
                     (if sec < 10 then ''0'' else []) @ show_int sec;
               cls = ''timer-display'';
               cls2 = (if timerSeconds s \<le> 10 \<and> timerSeconds s > 0 then cls @ '' danger''
                       else if timerSeconds s \<le> 30 then cls @ '' warning''
                       else cls);
               s1 = s\<lparr>timer_display := Some \<lparr>d_text = txt, d_class = cls2\<rparr>\<rparr>
           in (case timer_step_name s1 of
                 None \<Rightarrow> s1
               | Some t \<Rightarrow>
                   if timerStepIndex s1 < length steps
                   then s1\<lparr>timer_step_name :=
                           Some (''Step '' @ show_nat (timerStepIndex s1 + 1) @ '': '' @
                                 label (steps ! timerStepIndex s1))\<rparr>
                   else s1\<lparr>timer_step_name := Some ''Activity complete.''\<rparr>)))"

text \<open>
  \<^verbatim>\<open>ACTIVITY_STEPS[0].duration\<close> throws on an empty table, after the statements before it
  have taken effect.
\<close>

definition p1_setupTimer :: "step list \<Rightarrow> timer \<Rightarrow> timer completion" where
  "p1_setupTimer steps s =
     (case timer_btn s of
        None \<Rightarrow> Normal s
      | Some b \<Rightarrow>
          (let s1 = s\<lparr>timerStepIndex := 0\<rparr>
           in (case steps of
                 [] \<Rightarrow> Throw TypeError s1
               | st # rest \<Rightarrow> Normal (p1_renderTimer steps (s1\<lparr>timerSeconds := duration st\<rparr>)))))"

text \<open>The callback that \<^verbatim>\<open>startTimer\<close> hands to \<^verbatim>\<open>setInterval\<close> (lines 261 to 275).\<close>

definition p1_tick :: "step list \<Rightarrow> timer \<Rightarrow> timer" where
  "p1_tick steps s =
     (let s1 = s\<lparr>timerSeconds := timerSeconds s - 1\<rparr>;
          s2 = (if timerSeconds s1 \<le> 0
                then (let s3 = s1\<lparr>timerStepIndex := timerStepIndex s1 + 1\<rparr>
                      in if timerStepIndex s3 < length steps
                         then s3\<lparr>timerSeconds := duration (steps ! timerStepIndex s3)\<rparr>
                         else (let s4 = clearInterval (timerInterval s3) s3;
                                   s5 = s4\<lparr>timerRunning := False, timerSeconds := 0\<rparr>
                               in s5\<lparr>timer_btn :=
                                       map_option (\<lambda>b. b\<lparr>b_text := ''Done'', b_disabled := True\<rparr>)
                                         (timer_btn s5)\<rparr>))
                else s1)
      in p1_renderTimer steps s2)"

definition p1_startTimer :: "timer \<Rightarrow> timer" where
  "p1_startTimer s =
     (let s1 = s\<lparr>timerRunning := True\<rparr>;
          s2 = s1\<lparr>timer_btn :=
                   map_option (\<lambda>b. b\<lparr>b_text := ''Pause'', b_class := ''timer-btn timer-btn--pause''\<rparr>)
                     (timer_btn s1)\<rparr>;
          (h, s3) = setInterval s2
      in s3\<lparr>timerInterval := Some h\<rparr>)"

definition p1_pauseTimer :: "timer \<Rightarrow> timer" where
  "p1_pauseTimer s =
     (let s1 = s\<lparr>timerRunning := False\<rparr>;
          s2 = clearInterval (timerInterval s1) s1
      in s2\<lparr>timer_btn :=
              map_option (\<lambda>b. b\<lparr>b_text := ''Resume'', b_class := ''timer-btn timer-btn--start''\<rparr>)
                (timer_btn s2)\<rparr>)"

definition p1_resetTimer :: "step list \<Rightarrow> timer \<Rightarrow> timer completion" where
  "p1_resetTimer steps s =
     (let s1 = clearInterval (timerInterval s) s;
          s2 = s1\<lparr>timerRunning := False, timerStepIndex := 0\<rparr>
      in (case steps of
            [] \<Rightarrow> Throw TypeError s2
          | st # rest \<Rightarrow>
              (let s3 = s2\<lparr>timerSeconds := duration st\<rparr>;
                   s4 = s3\<lparr>timer_btn :=
                            map_option
                              (\<lambda>b. b\<lparr>b_text := ''Start'', b_class := ''timer-btn timer-btn--start'',
                                      b_disabled := False\<rparr>)
                              (timer_btn s3)\<rparr>
               in Normal (p1_renderTimer steps s4))))"

text \<open>
  The listeners that \<^verbatim>\<open>setupTimer\<close> registers (lines 248 to 251), and the browser that
  calls them: a click reaches the listener of a button that exists and is not disabled,
  the listeners exist only when \<^verbatim>\<open>timer-btn\<close> does, and an interval fires only while
  its handle is in the table of active timers.
\<close>

definition p1_timer_event :: "step list \<Rightarrow> timer_event \<Rightarrow> timer \<Rightarrow> timer" where
  "p1_timer_event steps ev s =
     (case ev of
        ClickTimerBtn \<Rightarrow>
          (case timer_btn s of
             None \<Rightarrow> s
           | Some b \<Rightarrow>
               if b_disabled b then s
               else if timerRunning s then p1_pauseTimer s
               else p1_startTimer s)
      | ClickTimerReset \<Rightarrow>
          (if timer_btn s \<noteq> None \<and> timer_reset s then state_of (p1_resetTimer steps s) else s)
      | IntervalFires h \<Rightarrow> (if h \<in> intervals s then p1_tick steps s else s))"

definition p1_timer_run :: "step list \<Rightarrow> timer_event list \<Rightarrow> timer \<Rightarrow> timer" where
  "p1_timer_run steps evs s = foldl (\<lambda>s ev. p1_timer_event steps ev s) s evs"


subsection \<open>Either engine\<close>

text \<open>The timer functions of one of the two scripts, by the script's name.\<close>

datatype engine = DeckJs | SecondScript

definition ACTIVITY_STEPS :: "engine \<Rightarrow> step list" where
  "ACTIVITY_STEPS e = (case e of DeckJs \<Rightarrow> deck_ACTIVITY_STEPS | SecondScript \<Rightarrow> p1_ACTIVITY_STEPS)"

definition renderTimer :: "engine \<Rightarrow> step list \<Rightarrow> timer \<Rightarrow> timer" where
  "renderTimer e = (case e of DeckJs \<Rightarrow> deck_renderTimer | SecondScript \<Rightarrow> p1_renderTimer)"

definition setupTimer :: "engine \<Rightarrow> step list \<Rightarrow> timer \<Rightarrow> timer completion" where
  "setupTimer e = (case e of DeckJs \<Rightarrow> deck_setupTimer | SecondScript \<Rightarrow> p1_setupTimer)"

definition tick :: "engine \<Rightarrow> step list \<Rightarrow> timer \<Rightarrow> timer" where
  "tick e = (case e of DeckJs \<Rightarrow> deck_tick | SecondScript \<Rightarrow> p1_tick)"

definition startTimer :: "engine \<Rightarrow> timer \<Rightarrow> timer" where
  "startTimer e = (case e of DeckJs \<Rightarrow> deck_startTimer | SecondScript \<Rightarrow> p1_startTimer)"

definition pauseTimer :: "engine \<Rightarrow> timer \<Rightarrow> timer" where
  "pauseTimer e = (case e of DeckJs \<Rightarrow> deck_pauseTimer | SecondScript \<Rightarrow> p1_pauseTimer)"

definition resetTimer :: "engine \<Rightarrow> step list \<Rightarrow> timer \<Rightarrow> timer completion" where
  "resetTimer e = (case e of DeckJs \<Rightarrow> deck_resetTimer | SecondScript \<Rightarrow> p1_resetTimer)"

definition timer_event :: "engine \<Rightarrow> step list \<Rightarrow> timer_event \<Rightarrow> timer \<Rightarrow> timer" where
  "timer_event e = (case e of DeckJs \<Rightarrow> deck_timer_event | SecondScript \<Rightarrow> p1_timer_event)"

definition timer_run :: "engine \<Rightarrow> step list \<Rightarrow> timer_event list \<Rightarrow> timer \<Rightarrow> timer" where
  "timer_run e = (case e of DeckJs \<Rightarrow> deck_timer_run | SecondScript \<Rightarrow> p1_timer_run)"

text \<open>
  What the scripts keep true of the interval table: the only interval that can be active
  is the one \<open>timerInterval\<close> names, its handle has been issued, and an interval is active
  only while \<open>timerRunning\<close> holds.
\<close>

definition timer_inv :: "timer \<Rightarrow> bool" where
  "timer_inv s =
     (intervals s \<subseteq> set_option (timerInterval s) \<and>
      (\<forall>h \<in> intervals s. h < next_interval s) \<and>
      (timerRunning s \<or> intervals s = {}))"

text \<open>The page-load state with every timer element present, and the two-step table of the specification's example.\<close>

definition example_timer :: timer where
  "example_timer =
     page_load (Some \<lparr>b_text = ''Start'', b_class = ''timer-btn timer-btn--start'', b_disabled = False\<rparr>)
       True (Some \<lparr>d_text = [], d_class = ''timer-display''\<rparr>) (Some [])"

definition example_steps :: "step list" where
  "example_steps = [\<lparr>label = ''first'', duration = 10\<rparr>, \<lparr>label = ''second'', duration = 5\<rparr>]"


section \<open>Narration cue player (second script, lines 146 to 220)\<close>

subsection \<open>The built-in functions the cue parser calls\<close>

text \<open>
  A script string is a list of characters; a character of the model is a code unit below
  256. \<^verbatim>\<open>String.prototype.split\<close> with a separator of one character never returns an
  empty array, so its result is the first piece and the list of the pieces after it.
\<close>

fun split :: "char \<Rightarrow> string \<Rightarrow> string \<times> string list" where
  "split sep [] = ([], [])"
| "split sep (c # cs) =
     (let (p, ps) = split sep cs in if c = sep then ([], p # ps) else (c # p, ps))"

text \<open>
  \<^verbatim>\<open>parseFloat\<close> converts its argument to a string (\<^verbatim>\<open>undefined\<close> becomes the text
  \<^verbatim>\<open>undefined\<close>), drops leading white space, and takes the longest prefix that is a
  \<^verbatim>\<open>StrDecimalLiteral\<close>; without such a prefix the result is \<^verbatim>\<open>NaN\<close>. The result
  \<open>NumberOf p\<close> stands for the Number value of the literal \<open>p\<close>: the rounding to a double
  is not part of the model. White space is every \<^verbatim>\<open>StrWhiteSpaceChar\<close> among the
  characters of the model: TAB, LF, VT, FF, CR, SP and the no-break space U+00A0.
\<close>

datatype js_number = NaN | NumberOf string






subsection \<open>parseCues, lines 177 to 183\<close>

record cue =
  cue_id :: string
  cue_start :: js_number



subsection \<open>Narration state\<close>

datatype markup = PageMarkup | LISTEN_ICON | STOP_ICON

text \<open>
  One \<^verbatim>\<open>.narrate-btn[data-audio]\<close> button together with what the closure of
  \<^verbatim>\<open>setupNarration\<close> holds for it: whether the button has the class \<^verbatim>\<open>playing\<close>, its
  \<^verbatim>\<open>innerHTML\<close> (the page's own markup or one of the two icon constants), the
  \<^verbatim>\<open>Audio\<close> object (\<^verbatim>\<open>paused\<close>, \<^verbatim>\<open>currentTime\<close>) and the parsed cues.
\<close>

record control =
  btn_playing :: bool
  btn_html :: markup
  audio_paused :: bool
  audio_currentTime :: rat
  cues :: "cue list"

text \<open>An element that a cue can address: its id, and whether it has the classes \<^verbatim>\<open>sowhat-card\<close> and \<^verbatim>\<open>speaking\<close>.\<close>

record element =
  el_id :: "string option"
  is_sowhat :: bool
  speaking :: bool

text \<open>The object \<^verbatim>\<open>{ audio, btn, timers }\<close>; audio and button are positions in the list of controls.\<close>

record narration =
  an_audio :: nat
  an_btn :: nat
  an_timers :: "nat list"

text \<open>
  \<open>timeouts\<close> is the browser's table of pending \<^verbatim>\<open>setTimeout\<close> callbacks, each with the cue
  its closure captured; handles are issued as for intervals.
\<close>

record narr =
  controls :: "control list"
  activeNarrate :: "narration option"
  elements :: "element list"
  timeouts :: "(nat \<times> cue) list"
  next_timeout :: nat


definition upd_control :: "nat \<Rightarrow> (control \<Rightarrow> control) \<Rightarrow> narr \<Rightarrow> narr" where
  "upd_control i f s = s\<lparr>controls := (controls s)[i := f (controls s ! i)]\<rparr>"




subsection \<open>The functions of the script\<close>

definition clearHighlights :: "narr \<Rightarrow> narr" where
  "clearHighlights s =
     s\<lparr>elements := map (\<lambda>e. if is_sowhat e then e\<lparr>speaking := False\<rparr> else e) (elements s)\<rparr>"













section \<open>Metadata loader (deck.js, lines 32 to 63; the same text at lines 34 to 65 of the second script)\<close>

subsection \<open>Parsed payloads\<close>

text \<open>
  A value that \<^verbatim>\<open>JSON.parse\<close> returns. A number is kept as the text that its conversion to a
  string gives, which is all the loader observes of it: it is falsy exactly when that text
  is \<^verbatim>\<open>0\<close>. An object is the list of its own properties. \<^verbatim>\<open>undefined\<close> is \<open>None\<close> of
  \<open>json option\<close>.
\<close>

datatype json = JNull | JBool bool | JNum string | JStr string | JArr "json list" | JObj "(string \<times> json) list"

fun truthy :: "json option \<Rightarrow> bool" where
  "truthy None = False"
| "truthy (Some JNull) = False"
| "truthy (Some (JBool b)) = b"
| "truthy (Some (JNum n)) = (n \<noteq> ''0'')"
| "truthy (Some (JStr s)) = (s \<noteq> [])"
| "truthy (Some (JArr xs)) = True"
| "truthy (Some (JObj kvs)) = True"

text \<open>
  Reading one of the properties \<^verbatim>\<open>videos\<close>, \<^verbatim>\<open>v1\<close>, \<^verbatim>\<open>v2\<close>, \<^verbatim>\<open>v3\<close>, \<^verbatim>\<open>filename\<close>,
  \<^verbatim>\<open>duration\<close>, \<^verbatim>\<open>remote\<close> of a value that is neither \<^verbatim>\<open>null\<close> nor \<^verbatim>\<open>undefined\<close>:
  an own property of an object, and \<^verbatim>\<open>undefined\<close> otherwise (no prototype has one of
  these names). The loader reads a property only of a truthy value.
\<close>

fun get_prop :: "json option \<Rightarrow> string \<Rightarrow> json option" where
  "get_prop (Some (JObj kvs)) k = map_of kvs k"
| "get_prop v k = None"

fun join :: "string \<Rightarrow> string list \<Rightarrow> string" where
  "join sep [] = []"
| "join sep [x] = x"
| "join sep (x # y # ys) = x @ sep @ join sep (y # ys)"

text \<open>
  The conversion to a string that assigning to \<^verbatim>\<open>textContent\<close> or \<^verbatim>\<open>src\<close> performs;
  \<open>None\<close> is the TypeError of \<^verbatim>\<open>OrdinaryToPrimitive\<close>. An array is joined with commas,
  \<^verbatim>\<open>null\<close> elements giving the empty string. An object without an own property
  \<^verbatim>\<open>toString\<close> gives \<^verbatim>\<open>[object Object]\<close>; with one, which a parsed payload cannot make
  callable, neither \<^verbatim>\<open>toString\<close> nor \<^verbatim>\<open>valueOf\<close> yields a primitive and the conversion
  throws.
\<close>

fun ToString :: "json \<Rightarrow> string option" where
  "ToString JNull = Some ''null''"
| "ToString (JBool b) = Some (if b then ''true'' else ''false'')"
| "ToString (JNum n) = Some n"
| "ToString (JStr s) = Some s"
| "ToString (JArr xs) =
     (let parts = map (\<lambda>x. if x = JNull then Some [] else ToString x) xs
      in if None \<in> set parts then None else Some (join '','' (map the parts)))"
| "ToString (JObj kvs) =
     (if ''toString'' \<in> fst ` set kvs then None else Some ''[object Object]'')"

subsection \<open>The document the loader writes to\<close>

datatype video_key = V1 | V2 | V3

text \<open>
  For each key: the text of the elements \<^verbatim>\<open>key-file\<close> and \<^verbatim>\<open>key-dur\<close>, and of the
  \<^verbatim>\<open>video\<close> element its \<^verbatim>\<open>src\<close> as last assigned and its \<^verbatim>\<open>onerror\<close> handler; the handler
  is named by the value of \<^verbatim>\<open>rec.remote\<close> that its closure captured.
\<close>

record player =
  src :: "string option"
  onerror :: "json option option"

record video_slot =
  file_el :: "string option"
  dur_el :: "string option"
  player_el :: "player option"

type_synonym video_dom = "video_key \<Rightarrow> video_slot"

text \<open>An assignment of a truthy script value to a text slot: the conversion may throw.\<close>

definition assign_text :: "json \<Rightarrow> (string \<Rightarrow> video_slot \<Rightarrow> video_slot) \<Rightarrow> video_slot \<Rightarrow> video_slot completion" where
  "assign_text v write sl =
     (case ToString v of None \<Rightarrow> Throw TypeError sl | Some t \<Rightarrow> Normal (write t sl))"

subsection \<open>hydrateVideos\<close>

text \<open>The body of the callback of \<^verbatim>\<open>forEach\<close>, on the slot of its key.\<close>

definition hydrate_slot :: "json option \<Rightarrow> video_slot \<Rightarrow> video_slot completion" where
  "hydrate_slot entry sl =
     (let rec = (if truthy entry then entry else Some (JObj []));
          fname = get_prop rec ''filename'';
          dur = get_prop rec ''duration'';
          remote = get_prop rec ''remote'';
          setFile = (\<lambda>t sl. sl\<lparr>file_el := Some t\<rparr>);
          setDur = (\<lambda>t sl. sl\<lparr>dur_el := Some t\<rparr>);
          setSrc = (\<lambda>t sl. sl\<lparr>player_el := map_option (\<lambda>p. p\<lparr>src := Some t\<rparr>) (player_el sl)\<rparr>)
      in bind (if file_el sl = None then Normal sl
               else if truthy fname then assign_text (the fname) setFile sl
               else Normal (setFile ''Not detected'' sl))
        (\<lambda>sl1.
           bind (if dur_el sl1 = None then Normal sl1
                 else if truthy dur then assign_text (the dur) setDur sl1
                 else Normal (setDur ''Play to see'' sl1))
             (\<lambda>sl2.
                if player_el sl2 = None then Normal sl2
                else if truthy fname
                then bind (assign_text (the fname) setSrc sl2)
                       (\<lambda>sl3. Normal (sl3\<lparr>player_el :=
                                          map_option (\<lambda>p. p\<lparr>onerror := Some remote\<rparr>) (player_el sl3)\<rparr>))
                else if truthy remote
                then bind (assign_text (the remote) setSrc sl2)
                       (\<lambda>sl3. Normal (if file_el sl3 = None then sl3
                                       else setFile ''Streaming from GitHub'' sl3))
                else Normal sl2)))"

definition hydrate_key :: "json option \<Rightarrow> video_key \<Rightarrow> video_dom \<Rightarrow> video_dom completion" where
  "hydrate_key videos key doc =
     map_completion (\<lambda>sl. doc(key := sl))
       (hydrate_slot
          (get_prop videos (case key of V1 \<Rightarrow> ''v1'' | V2 \<Rightarrow> ''v2'' | V3 \<Rightarrow> ''v3''))
          (doc key))"

text \<open>
  \<^verbatim>\<open>JSON.parse\<close> is a parameter: \<open>None\<close> is its SyntaxError, which the \<^verbatim>\<open>catch\<close> clause
  turns into a return. \<open>dataEl\<close> is the text of the element \<^verbatim>\<open>deck-data\<close>.
\<close>

definition hydrateVideos :: "(string \<Rightarrow> json option) \<Rightarrow> string option \<Rightarrow> video_dom \<Rightarrow> video_dom completion" where
  "hydrateVideos JSON_parse dataEl doc =
     (case dataEl of
        None \<Rightarrow> Normal doc
      | Some txt \<Rightarrow>
          (case JSON_parse txt of
             None \<Rightarrow> Normal doc
           | Some data \<Rightarrow>
               if \<not> truthy (Some data) \<or> \<not> truthy (get_prop (Some data) ''videos'') then Normal doc
               else (let videos = get_prop (Some data) ''videos''
                     in bind (bind (hydrate_key videos V1 doc) (hydrate_key videos V2))
                          (hydrate_key videos V3))))"

text \<open>The \<^verbatim>\<open>onerror\<close> handler of a player (lines 52 to 57 of deck.js), when the browser calls it.\<close>

definition player_error :: "video_slot \<Rightarrow> video_slot completion" where
  "player_error sl =
     (case player_el sl of
        None \<Rightarrow> Normal sl
      | Some p \<Rightarrow>
          (case onerror p of
             None \<Rightarrow> Normal sl
           | Some remote \<Rightarrow>
               if truthy remote
               then bind (assign_text (the remote)
                            (\<lambda>t sl. sl\<lparr>player_el := map_option (\<lambda>p. p\<lparr>src := Some t\<rparr>) (player_el sl)\<rparr>) sl)
                      (\<lambda>sl1. Normal (if file_el sl1 = None then sl1
                                      else sl1\<lparr>file_el := Some ''Streaming from GitHub''\<rparr>))
               else Normal sl))"

subsection \<open>Payloads whose fields convert to text\<close>

text \<open>
  A record is convertible when each of the three fields the loader reads is absent or has
  a conversion to a string. Strings, numbers, booleans and arrays of such values convert;
  the build script writes every \<^verbatim>\<open>filename\<close> and \<^verbatim>\<open>duration\<close> as a string. A value that
  is not an object has none of the three fields.
\<close>

definition convertible :: "json option \<Rightarrow> bool" where
  "convertible v = (case v of None \<Rightarrow> True | Some x \<Rightarrow> ToString x \<noteq> None)"

definition convertible_record :: "json option \<Rightarrow> bool" where
  "convertible_record entry =
     (convertible (get_prop entry ''filename'') \<and>
      convertible (get_prop entry ''duration'') \<and>
      convertible (get_prop entry ''remote''))"

text \<open>
  Example payloads: one as the build step writes it but without the record \<^verbatim>\<open>v2\<close>, the same
  with \<^verbatim>\<open>v2\<close>, and one whose \<^verbatim>\<open>v1\<close> file name is an object with an own property
  \<^verbatim>\<open>toString\<close>. The example page has the file and duration elements of all three keys and
  no players.
\<close>

definition payload_without_v2 :: json where
  "payload_without_v2 =
     JObj [(''videos'',
            JObj [(''v1'', JObj [(''filename'', JStr ''../Jewkes2021ElemOf_Video.mp4''), (''duration'', JStr ''12m 5s'')]),
                  (''v3'', JObj [(''filename'', JStr ''../Morales2026TheManBox.mp4''), (''duration'', JStr ''Unknown'')])])]"

definition payload_with_v2 :: json where
  "payload_with_v2 =
     JObj [(''videos'',
            JObj [(''v1'', JObj [(''filename'', JStr ''../Jewkes2021ElemOf_Video.mp4''), (''duration'', JStr ''12m 5s'')]),
                  (''v2'', JObj [(''filename'', JStr ''../Morales2026THRIVE-Belize.mp4''), (''duration'', JStr ''3m 0s'')]),
                  (''v3'', JObj [(''filename'', JStr ''../Morales2026TheManBox.mp4''), (''duration'', JStr ''Unknown'')])])]"

definition payload_with_object_filename :: json where
  "payload_with_object_filename =
     JObj [(''videos'', JObj [(''v1'', JObj [(''filename'', JObj [(''toString'', JNum ''1'')])])])]"

definition example_video_dom :: video_dom where
  "example_video_dom = (\<lambda>k. \<lparr>file_el = Some [], dur_el = Some [], player_el = None\<rparr>)"

text \<open>
  A parser for the examples: it knows the text of the empty object and three texts that
  stand for the payloads above, and fails on every other text as \<^verbatim>\<open>JSON.parse\<close> fails on
  a text that is not JSON.
\<close>

definition example_parse :: "string \<Rightarrow> json option" where
  "example_parse txt =
     (if txt = ''{}'' then Some (JObj [])
      else if txt = ''payload without v2'' then Some payload_without_v2
      else if txt = ''payload with v2'' then Some payload_with_v2
      else if txt = ''payload with object filename'' then Some payload_with_object_filename
      else None)"


section \<open>Properties of double-precision arithmetic\<close>











lemma progress_7_of_101: "js_multiply (js_divide 7 100) 100 = 7 + 1 / 2 ^ 50"
  unfolding js_multiply_def js_divide_def by code_simp

lemma progress_7_of_10: "js_multiply (js_divide 7 9) 100 = 5473124547151645 / 2 ^ 46"
  unfolding js_multiply_def js_divide_def by code_simp


section \<open>Properties of the slide navigator\<close>

subsection \<open>deck.js\<close>

lemma deck_updateProgress_eq:
  "deck_updateProgress s =
     s\<lparr>progress_fill :=
         map_option (\<lambda>w. if 1 < length (slides s)
                           then js_multiply
                                  (js_divide (rat_of_nat (currentIndex s))
                                     (rat_of_int (int (length (slides s)) - 1))) 100
                           else 100) (progress_fill s)\<rparr>"
  by (cases "progress_fill s") (simp_all add: deck_updateProgress_def)

lemma deck_updateCounter_eq:
  "deck_updateCounter s =
     s\<lparr>slide_counter :=
         map_option (\<lambda>t. show_nat (currentIndex s + 1) @ '' / '' @ show_nat (length (slides s)))
           (slide_counter s),
       prev_btn := map_option (\<lambda>d. currentIndex s = 0) (prev_btn s),
       next_btn := map_option (\<lambda>d. int (currentIndex s) = int (length (slides s)) - 1) (next_btn s)\<rparr>"
  by (cases "slide_counter s"; cases "prev_btn s"; cases "next_btn s")
     (simp_all add: deck_updateCounter_def Let_def)

lemma deck_updateNotes_eq:
  "deck_updateNotes s =
     s\<lparr>notes_content :=
         map_option (\<lambda>t. if currentIndex s < length (slides s)
                           then (case speaker_note (slides s ! currentIndex s) of
                                   None \<Rightarrow> [] | Some note \<Rightarrow> note)
                           else []) (notes_content s)\<rparr>"
  by (cases "notes_content s") (simp_all add: deck_updateNotes_def)

lemma deck_goToSlide_outside:
  "index < 0 \<or> int (length (slides s)) \<le> index \<Longrightarrow> deck_goToSlide index s = Normal s"
  by (auto simp: deck_goToSlide_def)

lemma deck_updateMusic_nav [simp]:
  "slides (deck_updateMusic s) = slides s"
  "currentIndex (deck_updateMusic s) = currentIndex s"
  "progress_fill (deck_updateMusic s) = progress_fill s"
  "slide_counter (deck_updateMusic s) = slide_counter s"
  "prev_btn (deck_updateMusic s) = prev_btn s"
  "next_btn (deck_updateMusic s) = next_btn s"
  "notes_content (deck_updateMusic s) = notes_content s"
  by (simp_all add: deck_updateMusic_def Let_def split: option.splits)

lemma deck_goToSlide_inside:
  assumes "0 \<le> index" "index < int (length (slides s))" "currentIndex s < length (slides s)"
  shows "\<exists>s'. deck_goToSlide index s = Normal s' \<and> currentIndex s' = nat index \<and>
           length (slides s') = length (slides s)"
proof -
  have "\<not> (index < 0 \<or> int (length (slides s)) \<le> index)" using assms by simp
  moreover have "\<not> length (slides s) \<le> currentIndex s" using assms by simp
  ultimately show ?thesis
    by (simp add: deck_goToSlide_def Let_def deck_updateProgress_eq deck_updateCounter_eq
          deck_updateNotes_eq)
qed

text \<open>What the refreshes leave in the elements, for an accepted request.\<close>

lemma deck_goToSlide_rendered:
  assumes "0 \<le> index" "index < int (length (slides s))" "currentIndex s < length (slides s)"
  shows "progress_fill (state_of (deck_goToSlide index s)) =
           map_option (\<lambda>w. if 1 < length (slides s)
                             then js_multiply
                                    (js_divide (rat_of_nat (nat index))
                                       (rat_of_int (int (length (slides s)) - 1))) 100
                             else 100) (progress_fill s)"
    and "slide_counter (state_of (deck_goToSlide index s)) =
           map_option (\<lambda>t. show_nat (nat index + 1) @ '' / '' @ show_nat (length (slides s)))
             (slide_counter s)"
    and "prev_btn (state_of (deck_goToSlide index s)) = map_option (\<lambda>d. index = 0) (prev_btn s)"
    and "next_btn (state_of (deck_goToSlide index s)) =
           map_option (\<lambda>d. index = int (length (slides s)) - 1) (next_btn s)"
proof -
  have c: "\<not> (index < 0 \<or> int (length (slides s)) \<le> index)" "\<not> length (slides s) \<le> currentIndex s"
    using assms by simp_all
  have e: "deck_goToSlide index s =
     Normal (deck_updateMusic (deck_updateNotes (deck_updateCounter (deck_updateProgress
       (s\<lparr>slides := (slides s)[currentIndex s := (slides s ! currentIndex s)\<lparr>active := False\<rparr>]\<rparr>
         \<lparr>currentIndex := nat index\<rparr>
         \<lparr>slides := ((slides s)[currentIndex s := (slides s ! currentIndex s)\<lparr>active := False\<rparr>])
                       [nat index := ((slides s)[currentIndex s := (slides s ! currentIndex s)\<lparr>active := False\<rparr>] ! nat index)
                                       \<lparr>active := True\<rparr>]\<rparr>)))))"
    using c by (simp add: deck_goToSlide_def Let_def)
  have n: "(index \<le> 0) = (index = 0)" "int (nat index) = index"
    using assms(1) by auto
  show "progress_fill (state_of (deck_goToSlide index s)) =
           map_option (\<lambda>w. if 1 < length (slides s)
                             then js_multiply
                                    (js_divide (rat_of_nat (nat index))
                                       (rat_of_int (int (length (slides s)) - 1))) 100
                             else 100) (progress_fill s)"
    unfolding e by (simp add: deck_updateProgress_eq deck_updateCounter_eq deck_updateNotes_eq)
  show "slide_counter (state_of (deck_goToSlide index s)) =
           map_option (\<lambda>t. show_nat (nat index + 1) @ '' / '' @ show_nat (length (slides s)))
             (slide_counter s)"
    unfolding e by (simp add: deck_updateProgress_eq deck_updateCounter_eq deck_updateNotes_eq)
  show "prev_btn (state_of (deck_goToSlide index s)) = map_option (\<lambda>d. index = 0) (prev_btn s)"
    unfolding e by (simp add: deck_updateProgress_eq deck_updateCounter_eq deck_updateNotes_eq n)
  show "next_btn (state_of (deck_goToSlide index s)) =
           map_option (\<lambda>d. index = int (length (slides s)) - 1) (next_btn s)"
    unfolding e by (simp add: deck_updateProgress_eq deck_updateCounter_eq deck_updateNotes_eq n assms(1))
qed

lemma deck_goToSlide_valid:
  assumes "currentIndex s < length (slides s)"
  shows "\<exists>s'. deck_goToSlide i s = Normal s' \<and> currentIndex s' < length (slides s') \<and>
           length (slides s') = length (slides s)"
proof (cases "i < 0 \<or> int (length (slides s)) \<le> i")
  case True
  have "deck_goToSlide i s = Normal s" by (rule deck_goToSlide_outside[OF True])
  then show ?thesis using assms by simp
next
  case False
  then have i: "0 \<le> i" "i < int (length (slides s))" by auto
  have n: "nat i < length (slides s)" using i by linarith
  from deck_goToSlide_inside[OF i assms] obtain s' where
    s': "deck_goToSlide i s = Normal s'" "currentIndex s' = nat i"
        "length (slides s') = length (slides s)" by (elim exE conjE)
  show ?thesis by (rule exI[of _ s']) (simp add: s' n)
qed

lemma deck_nextSlide_clamps:
  assumes "currentIndex s < length (slides s)"
  shows "\<exists>s'. deck_nextSlide s = Normal s' \<and> length (slides s') = length (slides s) \<and>
           currentIndex s' =
             (if currentIndex s + 1 = length (slides s) then currentIndex s else currentIndex s + 1)"
proof -
  let ?i = "min (int (length (slides s)) - 1) (int (currentIndex s) + 1)"
  have i: "0 \<le> ?i" "?i < int (length (slides s))" using assms by auto
  have n: "nat ?i = (if currentIndex s + 1 = length (slides s) then currentIndex s else currentIndex s + 1)"
    using assms by auto
  from deck_goToSlide_inside[OF i assms] obtain s' where
    s': "deck_goToSlide ?i s = Normal s'" "currentIndex s' = nat ?i"
        "length (slides s') = length (slides s)" by (elim exE conjE)
  show ?thesis
    unfolding deck_nextSlide_def by (rule exI[of _ s']) (simp only: s' n simp_thms)
qed

lemma deck_prevSlide_clamps:
  assumes "currentIndex s < length (slides s)"
  shows "\<exists>s'. deck_prevSlide s = Normal s' \<and> length (slides s') = length (slides s) \<and>
           currentIndex s' = (if currentIndex s = 0 then 0 else currentIndex s - 1)"
proof -
  let ?i = "max 0 (int (currentIndex s) - 1)"
  have i: "0 \<le> ?i" "?i < int (length (slides s))" using assms by auto
  have n: "nat ?i = (if currentIndex s = 0 then 0 else currentIndex s - 1)"
    by auto
  from deck_goToSlide_inside[OF i assms] obtain s' where
    s': "deck_goToSlide ?i s = Normal s'" "currentIndex s' = nat ?i"
        "length (slides s') = length (slides s)" by (elim exE conjE)
  show ?thesis
    unfolding deck_prevSlide_def by (rule exI[of _ s']) (simp only: s' n simp_thms)
qed

lemma deck_nav_step_valid:
  assumes "currentIndex s < length (slides s)"
  shows "\<exists>s'. deck_nav_step r s = Normal s' \<and> currentIndex s' < length (slides s') \<and>
           length (slides s') = length (slides s)"
proof (cases r)
  case (GoTo i)
  then show ?thesis using deck_goToSlide_valid[OF assms, of i] by (simp add: deck_nav_step_def)
next
  case Next
  then show ?thesis
    using deck_goToSlide_valid[OF assms, of "min (int (length (slides s)) - 1) (int (currentIndex s) + 1)"]
    by (simp only: deck_nav_step_def deck_nextSlide_def nav_op.case)
next
  case Prev
  then show ?thesis
    using deck_goToSlide_valid[OF assms, of "max 0 (int (currentIndex s) - 1)"]
    by (simp only: deck_nav_step_def deck_prevSlide_def nav_op.case)
qed

lemma deck_nav_run_valid:
  "currentIndex s < length (slides s) \<Longrightarrow>
   currentIndex (deck_nav_run rs s) < length (slides (deck_nav_run rs s)) \<and>
   length (slides (deck_nav_run rs s)) = length (slides s)"
proof (induction rs arbitrary: s)
  case Nil
  then show ?case by (simp add: deck_nav_run_def)
next
  case (Cons r rs)
  from deck_nav_step_valid[OF Cons.prems, of r] obtain s' where
    s': "deck_nav_step r s = Normal s'" "currentIndex s' < length (slides s')"
        "length (slides s') = length (slides s)" by (elim exE conjE)
  have "deck_nav_run (r # rs) s = deck_nav_run rs s'"
    using s'(1) by (simp add: deck_nav_run_def)
  with Cons.IH[OF s'(2)] s'(3) show ?case by simp
qed

lemma deck_nav_run_no_throw:
  assumes "currentIndex s < length (slides s)"
  shows "\<exists>s'. deck_nav_step r (deck_nav_run rs s) = Normal s'"
proof -
  have "currentIndex (deck_nav_run rs s) < length (slides (deck_nav_run rs s))"
    using deck_nav_run_valid[OF assms, where rs=rs] by simp
  from deck_nav_step_valid[OF this, of r] show ?thesis by (elim exE conjE) (rule exI)
qed


lemma deck_updateMusic_absent:
  "music_player s = None \<Longrightarrow> deck_updateMusic s = s"
  by (simp add: deck_updateMusic_def)


subsection \<open>Second script\<close>

lemma p1_updateProgress_eq:
  "p1_updateProgress s =
     s\<lparr>progress_fill :=
         map_option (\<lambda>w. if 1 < length (slides s)
                           then js_multiply
                                  (js_divide (rat_of_nat (currentIndex s))
                                     (rat_of_int (int (length (slides s)) - 1))) 100
                           else 100) (progress_fill s)\<rparr>"
  by (cases "progress_fill s") (simp_all add: p1_updateProgress_def)

lemma p1_updateCounter_eq:
  "p1_updateCounter s =
     s\<lparr>slide_counter :=
         map_option (\<lambda>t. show_nat (currentIndex s + 1) @ '' / '' @ show_nat (length (slides s)))
           (slide_counter s),
       prev_btn := map_option (\<lambda>d. currentIndex s = 0) (prev_btn s),
       next_btn := map_option (\<lambda>d. int (currentIndex s) = int (length (slides s)) - 1) (next_btn s)\<rparr>"
  by (cases "slide_counter s"; cases "prev_btn s"; cases "next_btn s")
     (simp_all add: p1_updateCounter_def Let_def)

lemma p1_updateNotes_eq:
  "p1_updateNotes s =
     s\<lparr>notes_content :=
         map_option (\<lambda>t. if currentIndex s < length (slides s)
                           then (case speaker_note (slides s ! currentIndex s) of
                                   None \<Rightarrow> [] | Some note \<Rightarrow> note)
                           else []) (notes_content s)\<rparr>"
  by (cases "notes_content s") (simp_all add: p1_updateNotes_def)

lemma p1_goToSlide_outside:
  "index < 0 \<or> int (length (slides s)) \<le> index \<Longrightarrow> p1_goToSlide index s = Normal s"
  by (auto simp: p1_goToSlide_def)

lemma p1_updateMusic_nav [simp]:
  "slides (p1_updateMusic s) = slides s"
  "currentIndex (p1_updateMusic s) = currentIndex s"
  "progress_fill (p1_updateMusic s) = progress_fill s"
  "slide_counter (p1_updateMusic s) = slide_counter s"
  "prev_btn (p1_updateMusic s) = prev_btn s"
  "next_btn (p1_updateMusic s) = next_btn s"
  "notes_content (p1_updateMusic s) = notes_content s"
  by (simp_all add: p1_updateMusic_def Let_def split: option.splits)

lemma p1_goToSlide_inside:
  assumes "0 \<le> index" "index < int (length (slides s))" "currentIndex s < length (slides s)"
  shows "\<exists>s'. p1_goToSlide index s = Normal s' \<and> currentIndex s' = nat index \<and>
           length (slides s') = length (slides s)"
proof -
  have "\<not> (index < 0 \<or> int (length (slides s)) \<le> index)" using assms by simp
  moreover have "\<not> length (slides s) \<le> currentIndex s" using assms by simp
  ultimately show ?thesis
    by (simp add: p1_goToSlide_def Let_def p1_updateProgress_eq p1_updateCounter_eq
          p1_updateNotes_eq)
qed

text \<open>What the refreshes leave in the elements, for an accepted request.\<close>

lemma p1_goToSlide_rendered:
  assumes "0 \<le> index" "index < int (length (slides s))" "currentIndex s < length (slides s)"
  shows "progress_fill (state_of (p1_goToSlide index s)) =
           map_option (\<lambda>w. if 1 < length (slides s)
                             then js_multiply
                                    (js_divide (rat_of_nat (nat index))
                                       (rat_of_int (int (length (slides s)) - 1))) 100
                             else 100) (progress_fill s)"
    and "slide_counter (state_of (p1_goToSlide index s)) =
           map_option (\<lambda>t. show_nat (nat index + 1) @ '' / '' @ show_nat (length (slides s)))
             (slide_counter s)"
    and "prev_btn (state_of (p1_goToSlide index s)) = map_option (\<lambda>d. index = 0) (prev_btn s)"
    and "next_btn (state_of (p1_goToSlide index s)) =
           map_option (\<lambda>d. index = int (length (slides s)) - 1) (next_btn s)"
proof -
  have c: "\<not> (index < 0 \<or> int (length (slides s)) \<le> index)" "\<not> length (slides s) \<le> currentIndex s"
    using assms by simp_all
  have e: "p1_goToSlide index s =
     Normal (p1_updateMusic (p1_updateNotes (p1_updateCounter (p1_updateProgress
       (s\<lparr>slides := (slides s)[currentIndex s := (slides s ! currentIndex s)\<lparr>active := False\<rparr>]\<rparr>
         \<lparr>currentIndex := nat index\<rparr>
         \<lparr>slides := ((slides s)[currentIndex s := (slides s ! currentIndex s)\<lparr>active := False\<rparr>])
                       [nat index := ((slides s)[currentIndex s := (slides s ! currentIndex s)\<lparr>active := False\<rparr>] ! nat index)
                                       \<lparr>active := True\<rparr>]\<rparr>)))))"
    using c by (simp add: p1_goToSlide_def Let_def)
  have n: "(index \<le> 0) = (index = 0)" "int (nat index) = index"
    using assms(1) by auto
  show "progress_fill (state_of (p1_goToSlide index s)) =
           map_option (\<lambda>w. if 1 < length (slides s)
                             then js_multiply
                                    (js_divide (rat_of_nat (nat index))
                                       (rat_of_int (int (length (slides s)) - 1))) 100
                             else 100) (progress_fill s)"
    unfolding e by (simp add: p1_updateProgress_eq p1_updateCounter_eq p1_updateNotes_eq)
  show "slide_counter (state_of (p1_goToSlide index s)) =
           map_option (\<lambda>t. show_nat (nat index + 1) @ '' / '' @ show_nat (length (slides s)))
             (slide_counter s)"
    unfolding e by (simp add: p1_updateProgress_eq p1_updateCounter_eq p1_updateNotes_eq)
  show "prev_btn (state_of (p1_goToSlide index s)) = map_option (\<lambda>d. index = 0) (prev_btn s)"
    unfolding e by (simp add: p1_updateProgress_eq p1_updateCounter_eq p1_updateNotes_eq n)
  show "next_btn (state_of (p1_goToSlide index s)) =
           map_option (\<lambda>d. index = int (length (slides s)) - 1) (next_btn s)"
    unfolding e by (simp add: p1_updateProgress_eq p1_updateCounter_eq p1_updateNotes_eq n assms(1))
qed

lemma p1_goToSlide_valid:
  assumes "currentIndex s < length (slides s)"
  shows "\<exists>s'. p1_goToSlide i s = Normal s' \<and> currentIndex s' < length (slides s') \<and>
           length (slides s') = length (slides s)"
proof (cases "i < 0 \<or> int (length (slides s)) \<le> i")
  case True
  have "p1_goToSlide i s = Normal s" by (rule p1_goToSlide_outside[OF True])
  then show ?thesis using assms by simp
next
  case False
  then have i: "0 \<le> i" "i < int (length (slides s))" by auto
  have n: "nat i < length (slides s)" using i by linarith
  from p1_goToSlide_inside[OF i assms] obtain s' where
    s': "p1_goToSlide i s = Normal s'" "currentIndex s' = nat i"
        "length (slides s') = length (slides s)" by (elim exE conjE)
  show ?thesis by (rule exI[of _ s']) (simp add: s' n)
qed

lemma p1_nextSlide_clamps:
  assumes "currentIndex s < length (slides s)"
  shows "\<exists>s'. p1_nextSlide s = Normal s' \<and> length (slides s') = length (slides s) \<and>
           currentIndex s' =
             (if currentIndex s + 1 = length (slides s) then currentIndex s else currentIndex s + 1)"
proof -
  let ?i = "min (int (length (slides s)) - 1) (int (currentIndex s) + 1)"
  have i: "0 \<le> ?i" "?i < int (length (slides s))" using assms by auto
  have n: "nat ?i = (if currentIndex s + 1 = length (slides s) then currentIndex s else currentIndex s + 1)"
    using assms by auto
  from p1_goToSlide_inside[OF i assms] obtain s' where
    s': "p1_goToSlide ?i s = Normal s'" "currentIndex s' = nat ?i"
        "length (slides s') = length (slides s)" by (elim exE conjE)
  show ?thesis
    unfolding p1_nextSlide_def by (rule exI[of _ s']) (simp only: s' n simp_thms)
qed

lemma p1_prevSlide_clamps:
  assumes "currentIndex s < length (slides s)"
  shows "\<exists>s'. p1_prevSlide s = Normal s' \<and> length (slides s') = length (slides s) \<and>
           currentIndex s' = (if currentIndex s = 0 then 0 else currentIndex s - 1)"
proof -
  let ?i = "max 0 (int (currentIndex s) - 1)"
  have i: "0 \<le> ?i" "?i < int (length (slides s))" using assms by auto
  have n: "nat ?i = (if currentIndex s = 0 then 0 else currentIndex s - 1)"
    by auto
  from p1_goToSlide_inside[OF i assms] obtain s' where
    s': "p1_goToSlide ?i s = Normal s'" "currentIndex s' = nat ?i"
        "length (slides s') = length (slides s)" by (elim exE conjE)
  show ?thesis
    unfolding p1_prevSlide_def by (rule exI[of _ s']) (simp only: s' n simp_thms)
qed

lemma p1_nav_step_valid:
  assumes "currentIndex s < length (slides s)"
  shows "\<exists>s'. p1_nav_step r s = Normal s' \<and> currentIndex s' < length (slides s') \<and>
           length (slides s') = length (slides s)"
proof (cases r)
  case (GoTo i)
  then show ?thesis using p1_goToSlide_valid[OF assms, of i] by (simp add: p1_nav_step_def)
next
  case Next
  then show ?thesis
    using p1_goToSlide_valid[OF assms, of "min (int (length (slides s)) - 1) (int (currentIndex s) + 1)"]
    by (simp only: p1_nav_step_def p1_nextSlide_def nav_op.case)
next
  case Prev
  then show ?thesis
    using p1_goToSlide_valid[OF assms, of "max 0 (int (currentIndex s) - 1)"]
    by (simp only: p1_nav_step_def p1_prevSlide_def nav_op.case)
qed

lemma p1_nav_run_valid:
  "currentIndex s < length (slides s) \<Longrightarrow>
   currentIndex (p1_nav_run rs s) < length (slides (p1_nav_run rs s)) \<and>
   length (slides (p1_nav_run rs s)) = length (slides s)"
proof (induction rs arbitrary: s)
  case Nil
  then show ?case by (simp add: p1_nav_run_def)
next
  case (Cons r rs)
  from p1_nav_step_valid[OF Cons.prems, of r] obtain s' where
    s': "p1_nav_step r s = Normal s'" "currentIndex s' < length (slides s')"
        "length (slides s') = length (slides s)" by (elim exE conjE)
  have "p1_nav_run (r # rs) s = p1_nav_run rs s'"
    using s'(1) by (simp add: p1_nav_run_def)
  with Cons.IH[OF s'(2)] s'(3) show ?case by simp
qed

lemma p1_nav_run_no_throw:
  assumes "currentIndex s < length (slides s)"
  shows "\<exists>s'. p1_nav_step r (p1_nav_run rs s) = Normal s'"
proof -
  have "currentIndex (p1_nav_run rs s) < length (slides (p1_nav_run rs s))"
    using p1_nav_run_valid[OF assms, where rs=rs] by simp
  from p1_nav_step_valid[OF this, of r] show ?thesis by (elim exE conjE) (rule exI)
qed


lemma p1_updateMusic_absent:
  "spotify_box s = None \<Longrightarrow> p1_updateMusic s = s"
  by (simp add: p1_updateMusic_def)


subsection \<open>Claims about navigation\<close>

text \<open>
  C5. A request for an index outside \<open>[0, slideCount - 1]\<close> returns normally and leaves the
  whole state as it was, in both scripts. From a state whose current index is valid,
  \<open>nextSlide\<close> and \<open>prevSlide\<close> return normally and clamp at the last and the first slide
  instead of wrapping, and after any sequence of requests (any index, next, previous) the
  current index is still an index of the unchanged slide list and no request throws.
\<close>

theorem goToSlide_out_of_range_and_clamping:
  fixes s :: deckjs and p :: part001
  shows
    "(index < 0 \<or> int (length (slides s)) \<le> index \<longrightarrow> deck_goToSlide index s = Normal s) \<and>
     (index < 0 \<or> int (length (slides p)) \<le> index \<longrightarrow> p1_goToSlide index p = Normal p) \<and>
     (currentIndex s < length (slides s) \<longrightarrow>
        (\<exists>s'. deck_nextSlide s = Normal s' \<and> length (slides s') = length (slides s) \<and>
              currentIndex s' =
                (if currentIndex s + 1 = length (slides s) then currentIndex s else currentIndex s + 1)) \<and>
        (\<exists>s'. deck_prevSlide s = Normal s' \<and> length (slides s') = length (slides s) \<and>
              currentIndex s' = (if currentIndex s = 0 then 0 else currentIndex s - 1)) \<and>
        (\<forall>rs. currentIndex (deck_nav_run rs s) < length (slides (deck_nav_run rs s)) \<and>
              length (slides (deck_nav_run rs s)) = length (slides s) \<and>
              (\<forall>r. \<exists>s'. deck_nav_step r (deck_nav_run rs s) = Normal s'))) \<and>
     (currentIndex p < length (slides p) \<longrightarrow>
        (\<exists>p'. p1_nextSlide p = Normal p' \<and> length (slides p') = length (slides p) \<and>
              currentIndex p' =
                (if currentIndex p + 1 = length (slides p) then currentIndex p else currentIndex p + 1)) \<and>
        (\<exists>p'. p1_prevSlide p = Normal p' \<and> length (slides p') = length (slides p) \<and>
              currentIndex p' = (if currentIndex p = 0 then 0 else currentIndex p - 1)) \<and>
        (\<forall>rs. currentIndex (p1_nav_run rs p) < length (slides (p1_nav_run rs p)) \<and>
              length (slides (p1_nav_run rs p)) = length (slides p) \<and>
              (\<forall>r. \<exists>p'. p1_nav_step r (p1_nav_run rs p) = Normal p')))"
proof (intro conjI impI allI)
  assume "index < 0 \<or> int (length (slides s)) \<le> index"
  then show "deck_goToSlide index s = Normal s" by (rule deck_goToSlide_outside)
next
  assume "index < 0 \<or> int (length (slides p)) \<le> index"
  then show "p1_goToSlide index p = Normal p" by (rule p1_goToSlide_outside)
next
  assume v: "currentIndex s < length (slides s)"
  show "\<exists>s'. deck_nextSlide s = Normal s' \<and> length (slides s') = length (slides s) \<and>
          currentIndex s' =
            (if currentIndex s + 1 = length (slides s) then currentIndex s else currentIndex s + 1)"
    by (rule deck_nextSlide_clamps[OF v])
  show "\<exists>s'. deck_prevSlide s = Normal s' \<and> length (slides s') = length (slides s) \<and>
          currentIndex s' = (if currentIndex s = 0 then 0 else currentIndex s - 1)"
    by (rule deck_prevSlide_clamps[OF v])
  fix rs
  show "currentIndex (deck_nav_run rs s) < length (slides (deck_nav_run rs s))"
    using deck_nav_run_valid[OF v, where rs=rs] by (rule conjunct1)
  show "length (slides (deck_nav_run rs s)) = length (slides s)"
    using deck_nav_run_valid[OF v, where rs=rs] by (rule conjunct2)
  fix r
  show "\<exists>s'. deck_nav_step r (deck_nav_run rs s) = Normal s'"
    by (rule deck_nav_run_no_throw[OF v])
next
  assume v: "currentIndex p < length (slides p)"
  show "\<exists>p'. p1_nextSlide p = Normal p' \<and> length (slides p') = length (slides p) \<and>
          currentIndex p' =
            (if currentIndex p + 1 = length (slides p) then currentIndex p else currentIndex p + 1)"
    by (rule p1_nextSlide_clamps[OF v])
  show "\<exists>p'. p1_prevSlide p = Normal p' \<and> length (slides p') = length (slides p) \<and>
          currentIndex p' = (if currentIndex p = 0 then 0 else currentIndex p - 1)"
    by (rule p1_prevSlide_clamps[OF v])
  fix rs
  show "currentIndex (p1_nav_run rs p) < length (slides (p1_nav_run rs p))"
    using p1_nav_run_valid[OF v, where rs=rs] by (rule conjunct1)
  show "length (slides (p1_nav_run rs p)) = length (slides p)"
    using p1_nav_run_valid[OF v, where rs=rs] by (rule conjunct2)
  fix r
  show "\<exists>p'. p1_nav_step r (p1_nav_run rs p) = Normal p'"
    by (rule p1_nav_run_no_throw[OF v])
qed

text \<open>
  The theorem at a page of ten slides: index 10 is refused on the last slide of deck.js and
  on the first slide of the second script; next on the last slide stays at 9, previous on
  the first slide stays at 0, and the walk next, next, first, previous stays inside.
\<close>

theorem goToSlide_out_of_range_and_clamping_witness:
  "deck_goToSlide 10 (deck_example 10 9) = Normal (deck_example 10 9) \<and>
   p1_goToSlide 10 (p1_example 10 0) = Normal (p1_example 10 0) \<and>
   (\<exists>s'. deck_nextSlide (deck_example 10 9) = Normal s' \<and> currentIndex s' = 9) \<and>
   (\<exists>p'. p1_prevSlide (p1_example 10 0) = Normal p' \<and> currentIndex p' = 0) \<and>
   currentIndex (deck_nav_run [Next, Next, GoTo 0, Prev] (deck_example 10 9)) < 10"
proof -
  note t = goToSlide_out_of_range_and_clamping[of 10 "deck_example 10 9" "p1_example 10 0"]
  have h: "(10::int) < 0 \<or> int (length (slides (deck_example 10 9))) \<le> 10"
          "(10::int) < 0 \<or> int (length (slides (p1_example 10 0))) \<le> 10"
          "currentIndex (deck_example 10 9) < length (slides (deck_example 10 9))"
          "currentIndex (p1_example 10 0) < length (slides (p1_example 10 0))"
    by (simp_all add: deck_example_def p1_example_def)
  have v: "currentIndex (deck_example 10 9) = 9" "length (slides (deck_example 10 9)) = 10"
          "currentIndex (p1_example 10 0) = 0"
    by (simp_all add: deck_example_def p1_example_def)
  from t h(1) have a: "deck_goToSlide 10 (deck_example 10 9) = Normal (deck_example 10 9)" by blast
  from t h(2) have b: "p1_goToSlide 10 (p1_example 10 0) = Normal (p1_example 10 0)" by blast
  from t h(3) have c: "\<exists>s'. deck_nextSlide (deck_example 10 9) = Normal s' \<and>
      length (slides s') = length (slides (deck_example 10 9)) \<and>
      currentIndex s' =
        (if currentIndex (deck_example 10 9) + 1 = length (slides (deck_example 10 9))
         then currentIndex (deck_example 10 9) else currentIndex (deck_example 10 9) + 1)"
    by blast
  from t h(4) have d: "\<exists>p'. p1_prevSlide (p1_example 10 0) = Normal p' \<and>
      length (slides p') = length (slides (p1_example 10 0)) \<and>
      currentIndex p' = (if currentIndex (p1_example 10 0) = 0 then 0 else currentIndex (p1_example 10 0) - 1)"
    by blast
  from t h(3) have e: "currentIndex (deck_nav_run [Next, Next, GoTo 0, Prev] (deck_example 10 9))
      < length (slides (deck_nav_run [Next, Next, GoTo 0, Prev] (deck_example 10 9))) \<and>
      length (slides (deck_nav_run [Next, Next, GoTo 0, Prev] (deck_example 10 9))) =
      length (slides (deck_example 10 9))"
    by blast
  from c have c': "\<exists>s'. deck_nextSlide (deck_example 10 9) = Normal s' \<and> currentIndex s' = 9"
    unfolding v by auto
  from d have d': "\<exists>p'. p1_prevSlide (p1_example 10 0) = Normal p' \<and> currentIndex p' = 0"
    unfolding v by auto
  from e have e': "currentIndex (deck_nav_run [Next, Next, GoTo 0, Prev] (deck_example 10 9)) < 10"
    unfolding v by simp
  from a b c' d' e' show ?thesis by (intro conjI)
qed




text \<open>
  Against C9 as stated: the rendered percentage is not always 100 times the fraction of
  the specification. At slide 7 of 101 slides the fraction is \<open>7 / 100\<close>, and deck.js renders
  the double above 7, whose decimal text is \<^verbatim>\<open>7.000000000000001\<close>. At slide 7 of 10 slides
  the second script renders a double near \<open>700 / 9\<close>, whose decimal text is
  \<^verbatim>\<open>77.77777777777779\<close>.
\<close>

theorem progress_not_exact_counterexample:
  "progress_fill (state_of (deck_goToSlide 7 (deck_example 101 0))) = Some (7 + 1 / 2 ^ 50) \<and>
   100 * spec_progress 7 101 = 7 \<and>
   progress_fill (state_of (p1_goToSlide 7 (p1_example 10 0))) = Some (5473124547151645 / 2 ^ 46) \<and>
   100 * spec_progress 7 10 = 700 / 9 \<and>
   (5473124547151645 / 2 ^ 46 :: rat) \<noteq> 700 / 9"
proof -
  have d: "length (slides (deck_example n i)) = n" "currentIndex (deck_example n i) = i"
          "progress_fill (deck_example n i) = Some 0" for n i
    by (simp_all add: deck_example_def)
  have e: "length (slides (p1_example n i)) = n" "currentIndex (p1_example n i) = i"
          "progress_fill (p1_example n i) = Some 0" for n i
    by (simp_all add: p1_example_def)
  have h: "(0::int) \<le> 7" "7 < int (length (slides (deck_example 101 0)))"
          "currentIndex (deck_example 101 0) < length (slides (deck_example 101 0))"
    by (simp_all add: d)
  have k: "(0::int) \<le> 7" "7 < int (length (slides (p1_example 10 0)))"
          "currentIndex (p1_example 10 0) < length (slides (p1_example 10 0))"
    by (simp_all add: e)
  have a: "progress_fill (state_of (deck_goToSlide 7 (deck_example 101 0))) = Some (7 + 1 / 2 ^ 50)"
    unfolding deck_goToSlide_rendered(1)[OF h] d using progress_7_of_101 by simp
  have b: "progress_fill (state_of (p1_goToSlide 7 (p1_example 10 0))) = Some (5473124547151645 / 2 ^ 46)"
    unfolding p1_goToSlide_rendered(1)[OF k] e using progress_7_of_10 by simp
  have c: "100 * spec_progress 7 101 = 7" "100 * spec_progress 7 10 = 700 / 9"
    by (simp_all add: spec_progress_def)
  have n: "(5473124547151645 / 2 ^ 46 :: rat) \<noteq> 700 / 9" by (simp add: field_simps)
  from a b c n show ?thesis by (intro conjI)
qed











section \<open>Properties of the activity timer\<close>

subsection \<open>The two scripts carry the same timer\<close>

lemma p1_renderTimer_eq: "p1_renderTimer = deck_renderTimer"
  by (intro ext) (unfold p1_renderTimer_def deck_renderTimer_def, rule refl)

lemma p1_setupTimer_eq: "p1_setupTimer = deck_setupTimer"
  by (intro ext) (unfold p1_setupTimer_def deck_setupTimer_def p1_renderTimer_eq, rule refl)

lemma p1_tick_eq: "p1_tick = deck_tick"
  by (intro ext) (unfold p1_tick_def deck_tick_def p1_renderTimer_eq, rule refl)

lemma p1_startTimer_eq: "p1_startTimer = deck_startTimer"
  by (intro ext) (unfold p1_startTimer_def deck_startTimer_def, rule refl)

lemma p1_pauseTimer_eq: "p1_pauseTimer = deck_pauseTimer"
  by (intro ext) (unfold p1_pauseTimer_def deck_pauseTimer_def, rule refl)

lemma p1_resetTimer_eq: "p1_resetTimer = deck_resetTimer"
  by (intro ext) (unfold p1_resetTimer_def deck_resetTimer_def p1_renderTimer_eq, rule refl)

lemma p1_timer_event_eq: "p1_timer_event = deck_timer_event"
  by (intro ext)
     (unfold p1_timer_event_def deck_timer_event_def p1_tick_eq p1_startTimer_eq
        p1_pauseTimer_eq p1_resetTimer_eq, rule refl)

lemma p1_timer_run_eq: "p1_timer_run = deck_timer_run"
  by (intro ext) (unfold p1_timer_run_def deck_timer_run_def p1_timer_event_eq, rule refl)

lemma engine_timer:
  "renderTimer e = deck_renderTimer" "setupTimer e = deck_setupTimer" "tick e = deck_tick"
  "startTimer e = deck_startTimer" "pauseTimer e = deck_pauseTimer"
  "resetTimer e = deck_resetTimer" "timer_event e = deck_timer_event"
  "timer_run e = deck_timer_run"
  by (cases e; simp add: renderTimer_def setupTimer_def tick_def startTimer_def pauseTimer_def
        resetTimer_def timer_event_def timer_run_def p1_renderTimer_eq p1_setupTimer_eq p1_tick_eq
        p1_startTimer_eq p1_pauseTimer_eq p1_resetTimer_eq p1_timer_event_eq p1_timer_run_eq)+

subsection \<open>Rendering writes only to the display and the step name\<close>

lemma deck_renderTimer_vars [simp]:
  "timerInterval (deck_renderTimer steps s) = timerInterval s"
  "timerSeconds (deck_renderTimer steps s) = timerSeconds s"
  "timerRunning (deck_renderTimer steps s) = timerRunning s"
  "timerStepIndex (deck_renderTimer steps s) = timerStepIndex s"
  "timer_btn (deck_renderTimer steps s) = timer_btn s"
  "timer_reset (deck_renderTimer steps s) = timer_reset s"
  "intervals (deck_renderTimer steps s) = intervals s"
  "next_interval (deck_renderTimer steps s) = next_interval s"
  by (simp_all add: deck_renderTimer_def Let_def split: option.splits)

lemma clearInterval_vars [simp]:
  "timerInterval (clearInterval h s) = timerInterval s"
  "timerSeconds (clearInterval h s) = timerSeconds s"
  "timerRunning (clearInterval h s) = timerRunning s"
  "timerStepIndex (clearInterval h s) = timerStepIndex s"
  "timer_btn (clearInterval h s) = timer_btn s"
  "timer_reset (clearInterval h s) = timer_reset s"
  "timer_display (clearInterval h s) = timer_display s"
  "timer_step_name (clearInterval h s) = timer_step_name s"
  "next_interval (clearInterval h s) = next_interval s"
  "intervals (clearInterval h s) = intervals s - set_option h"
  by (cases h; simp add: clearInterval_def)+

subsection \<open>The three cases of a tick\<close>

lemma deck_tick_counting:
  assumes "1 < timerSeconds s"
  shows "timerSeconds (deck_tick steps s) = timerSeconds s - 1"
    and "timerStepIndex (deck_tick steps s) = timerStepIndex s"
    and "timerRunning (deck_tick steps s) = timerRunning s"
    and "intervals (deck_tick steps s) = intervals s"
    and "timerInterval (deck_tick steps s) = timerInterval s"
    and "next_interval (deck_tick steps s) = next_interval s"
    and "timer_btn (deck_tick steps s) = timer_btn s"
    and "timer_reset (deck_tick steps s) = timer_reset s"
  using assms by (simp_all add: deck_tick_def Let_def)

lemma deck_tick_advancing:
  assumes "timerSeconds s \<le> 1" "timerStepIndex s + 1 < length steps"
  shows "timerSeconds (deck_tick steps s) = duration (steps ! (timerStepIndex s + 1))"
    and "timerStepIndex (deck_tick steps s) = timerStepIndex s + 1"
    and "timerRunning (deck_tick steps s) = timerRunning s"
    and "intervals (deck_tick steps s) = intervals s"
    and "timerInterval (deck_tick steps s) = timerInterval s"
    and "next_interval (deck_tick steps s) = next_interval s"
    and "timer_btn (deck_tick steps s) = timer_btn s"
    and "timer_reset (deck_tick steps s) = timer_reset s"
  using assms by (simp_all add: deck_tick_def Let_def)

lemma deck_tick_finishing:
  assumes "timerSeconds s \<le> 1" "length steps \<le> timerStepIndex s + 1"
  shows "timerSeconds (deck_tick steps s) = 0"
    and "timerStepIndex (deck_tick steps s) = timerStepIndex s + 1"
    and "timerRunning (deck_tick steps s) = False"
    and "intervals (deck_tick steps s) = intervals s - set_option (timerInterval s)"
    and "timerInterval (deck_tick steps s) = timerInterval s"
    and "next_interval (deck_tick steps s) = next_interval s"
    and "timer_btn (deck_tick steps s) =
           map_option (\<lambda>b. b\<lparr>b_text := ''Done'', b_disabled := True\<rparr>) (timer_btn s)"
    and "timer_reset (deck_tick steps s) = timer_reset s"
  using assms by (simp_all add: deck_tick_def Let_def)

lemma deck_tick_step_name:
  assumes "timer_display s = Some d" "timer_step_name s = Some t"
  shows "timer_step_name (deck_tick steps s) =
           Some (if timerSeconds s \<le> 1 \<and> length steps \<le> timerStepIndex s + 1
                   \<or> 1 < timerSeconds s \<and> length steps \<le> timerStepIndex s
                 then ''Activity complete.''
                 else ''Step '' @
                      show_nat ((if timerSeconds s \<le> 1 then timerStepIndex s + 1 else timerStepIndex s) + 1)
                      @ '': '' @
                      label (steps ! (if timerSeconds s \<le> 1 then timerStepIndex s + 1 else timerStepIndex s)))"
  using assms by (simp add: deck_tick_def deck_renderTimer_def Let_def clearInterval_def split: option.splits)

subsection \<open>Start, pause and reset\<close>

lemma deck_startTimer_vars:
  "timerSeconds (deck_startTimer s) = timerSeconds s"
  "timerStepIndex (deck_startTimer s) = timerStepIndex s"
  "timerRunning (deck_startTimer s) = True"
  "intervals (deck_startTimer s) = insert (next_interval s) (intervals s)"
  "timerInterval (deck_startTimer s) = Some (next_interval s)"
  "next_interval (deck_startTimer s) = next_interval s + 1"
  "timer_btn (deck_startTimer s) =
     map_option (\<lambda>b. b\<lparr>b_text := ''Pause'', b_class := ''timer-btn timer-btn--pause''\<rparr>) (timer_btn s)"
  "timer_reset (deck_startTimer s) = timer_reset s"
  by (simp_all add: deck_startTimer_def setInterval_def Let_def)

lemma deck_pauseTimer_vars:
  "timerSeconds (deck_pauseTimer s) = timerSeconds s"
  "timerStepIndex (deck_pauseTimer s) = timerStepIndex s"
  "timerRunning (deck_pauseTimer s) = False"
  "intervals (deck_pauseTimer s) = intervals s - set_option (timerInterval s)"
  "timerInterval (deck_pauseTimer s) = timerInterval s"
  "next_interval (deck_pauseTimer s) = next_interval s"
  "timer_btn (deck_pauseTimer s) =
     map_option (\<lambda>b. b\<lparr>b_text := ''Resume'', b_class := ''timer-btn timer-btn--start''\<rparr>) (timer_btn s)"
  "timer_reset (deck_pauseTimer s) = timer_reset s"
  by (simp_all add: deck_pauseTimer_def Let_def)

lemma deck_resetTimer_normal:
  "\<exists>s'. deck_resetTimer (st # rest) s = Normal s'"
  by (simp add: deck_resetTimer_def Let_def)

lemma deck_resetTimer_vars:
  "timerSeconds (state_of (deck_resetTimer (st # rest) s)) = duration st"
  "timerStepIndex (state_of (deck_resetTimer (st # rest) s)) = 0"
  "timerRunning (state_of (deck_resetTimer (st # rest) s)) = False"
  "intervals (state_of (deck_resetTimer (st # rest) s)) = intervals s - set_option (timerInterval s)"
  "timerInterval (state_of (deck_resetTimer (st # rest) s)) = timerInterval s"
  "next_interval (state_of (deck_resetTimer (st # rest) s)) = next_interval s"
  "timer_btn (state_of (deck_resetTimer (st # rest) s)) =
     map_option (\<lambda>b. b\<lparr>b_text := ''Start'', b_class := ''timer-btn timer-btn--start'',
                        b_disabled := False\<rparr>) (timer_btn s)"
  "timer_reset (state_of (deck_resetTimer (st # rest) s)) = timer_reset s"
  by (simp_all add: deck_resetTimer_def Let_def)

text \<open>On an empty table the reset throws, after it has cancelled the interval and reset two variables.\<close>

lemma deck_resetTimer_empty:
  "deck_resetTimer [] s =
     Throw TypeError ((clearInterval (timerInterval s) s)\<lparr>timerRunning := False, timerStepIndex := 0\<rparr>)"
  by (simp add: deck_resetTimer_def Let_def)

lemma deck_resetTimer_intervals:
  "intervals (state_of (deck_resetTimer steps s)) = intervals s - set_option (timerInterval s)"
  "next_interval (state_of (deck_resetTimer steps s)) = next_interval s"
  "timerInterval (state_of (deck_resetTimer steps s)) = timerInterval s"
  "timerRunning (state_of (deck_resetTimer steps s)) = False"
  by (cases steps; simp add: deck_resetTimer_def Let_def)+

lemma deck_tick_intervals:
  "intervals (deck_tick steps s) \<subseteq> intervals s"
  "next_interval (deck_tick steps s) = next_interval s"
  "timerInterval (deck_tick steps s) = timerInterval s"
  by (auto simp: deck_tick_def Let_def)

lemma deck_tick_running:
  "timerRunning (deck_tick steps s) = timerRunning s \<and> intervals (deck_tick steps s) = intervals s \<or>
   intervals (deck_tick steps s) = intervals s - set_option (timerInterval s)"
  by (simp add: deck_tick_def Let_def)

subsection \<open>The interval table along any sequence of events\<close>

lemma deck_timer_event_inv:
  assumes "timer_inv s"
  shows "timer_inv (deck_timer_event steps ev s)"
proof (cases ev)
  case ClickTimerBtn
  show ?thesis
  proof (cases "timer_btn s")
    case None
    then show ?thesis using assms ClickTimerBtn by (simp add: deck_timer_event_def)
  next
    case (Some b)
    show ?thesis
    proof (cases "b_disabled b")
      case True
      then show ?thesis using assms ClickTimerBtn Some by (simp add: deck_timer_event_def)
    next
      case False
      show ?thesis
      proof (cases "timerRunning s")
        case True
        then have "deck_timer_event steps ev s = deck_pauseTimer s"
          using ClickTimerBtn Some False by (simp add: deck_timer_event_def)
        then show ?thesis using assms
          by (auto simp: timer_inv_def deck_pauseTimer_vars)
      next
        case nr: False
        then have "deck_timer_event steps ev s = deck_startTimer s"
          using ClickTimerBtn Some False by (simp add: deck_timer_event_def)
        moreover have "intervals s = {}" using assms nr by (simp add: timer_inv_def)
        ultimately show ?thesis
          by (simp add: timer_inv_def deck_startTimer_vars)
      qed
    qed
  qed
next
  case ClickTimerReset
  show ?thesis
  proof (cases "timer_btn s \<noteq> None \<and> timer_reset s")
    case True
    then have "deck_timer_event steps ev s = state_of (deck_resetTimer steps s)"
      using ClickTimerReset by (simp add: deck_timer_event_def)
    then show ?thesis using assms
      by (auto simp: timer_inv_def deck_resetTimer_intervals)
  next
    case False
    then have "deck_timer_event steps ev s = s"
      using ClickTimerReset by (auto simp: deck_timer_event_def)
    then show ?thesis using assms by simp
  qed
next
  case (IntervalFires h)
  show ?thesis
  proof (cases "h \<in> intervals s")
    case True
    then have e: "deck_timer_event steps ev s = deck_tick steps s"
      using IntervalFires by (simp add: deck_timer_event_def)
    have "intervals (deck_tick steps s) \<subseteq> set_option (timerInterval (deck_tick steps s))"
      using assms deck_tick_intervals(1)[of steps s]
      by (auto simp: timer_inv_def deck_tick_intervals(3))
    moreover have "\<forall>h \<in> intervals (deck_tick steps s). h < next_interval (deck_tick steps s)"
      using assms deck_tick_intervals(1)[of steps s]
      by (auto simp: timer_inv_def deck_tick_intervals(2))
    moreover have "timerRunning (deck_tick steps s) \<or> intervals (deck_tick steps s) = {}"
      using assms deck_tick_running[of steps s]
      by (auto simp: timer_inv_def)
    ultimately show ?thesis unfolding e by (simp add: timer_inv_def)
  next
    case False
    then have "deck_timer_event steps ev s = s"
      using IntervalFires by (simp add: deck_timer_event_def)
    then show ?thesis using assms by simp
  qed
qed

lemma deck_timer_run_snoc:
  "deck_timer_run steps (evs @ [ev]) s = deck_timer_event steps ev (deck_timer_run steps evs s)"
  by (simp add: deck_timer_run_def)

lemma deck_timer_run_Cons:
  "deck_timer_run steps (ev # evs) s = deck_timer_run steps evs (deck_timer_event steps ev s)"
  by (simp add: deck_timer_run_def)

lemma deck_timer_run_Nil: "deck_timer_run steps [] s = s"
  by (simp add: deck_timer_run_def)

lemma deck_timer_run_inv:
  "timer_inv s \<Longrightarrow> timer_inv (deck_timer_run steps evs s)"
  by (induction evs arbitrary: s) (simp_all add: deck_timer_run_Nil deck_timer_run_Cons deck_timer_event_inv)

lemma page_load_inv: "timer_inv (page_load btn resetBtn disp stepEl)"
  by (simp add: timer_inv_def page_load_def)

lemma deck_setupTimer_intervals:
  "intervals (state_of (deck_setupTimer steps s)) = intervals s"
  "next_interval (state_of (deck_setupTimer steps s)) = next_interval s"
  "timerInterval (state_of (deck_setupTimer steps s)) = timerInterval s"
  "timerRunning (state_of (deck_setupTimer steps s)) = timerRunning s"
  by (cases "timer_btn s"; cases steps; simp add: deck_setupTimer_def Let_def)+

lemma deck_setupTimer_inv:
  "timer_inv s \<Longrightarrow> timer_inv (state_of (deck_setupTimer steps s))"
  by (simp add: timer_inv_def deck_setupTimer_intervals)

text \<open>A handle that was issued before a moment with no active interval is never active again.\<close>

lemma deck_timer_event_fresh:
  assumes "n \<le> next_interval s" "\<forall>h \<in> intervals s. n \<le> h"
  shows "n \<le> next_interval (deck_timer_event steps ev s) \<and>
         (\<forall>h \<in> intervals (deck_timer_event steps ev s). n \<le> h)"
proof (cases ev)
  case ClickTimerBtn
  then show ?thesis using assms
    by (auto simp: deck_timer_event_def deck_startTimer_vars deck_pauseTimer_vars split: option.splits)
next
  case ClickTimerReset
  then show ?thesis using assms
    by (auto simp: deck_timer_event_def deck_resetTimer_intervals)
next
  case (IntervalFires h)
  then show ?thesis using assms deck_tick_intervals(1)[of steps s]
    by (auto simp: deck_timer_event_def deck_tick_intervals(2))
qed

lemma deck_timer_run_fresh:
  "n \<le> next_interval s \<Longrightarrow> \<forall>h \<in> intervals s. n \<le> h \<Longrightarrow>
   n \<le> next_interval (deck_timer_run steps evs s) \<and>
   (\<forall>h \<in> intervals (deck_timer_run steps evs s). n \<le> h)"
proof (induction evs arbitrary: s)
  case Nil
  then show ?case by (simp add: deck_timer_run_Nil)
next
  case (Cons ev evs)
  from deck_timer_event_fresh[OF Cons.prems, of steps ev]
  have "n \<le> next_interval (deck_timer_event steps ev s)"
       "\<forall>h \<in> intervals (deck_timer_event steps ev s). n \<le> h" by simp_all
  from Cons.IH[OF this] show ?case by (simp add: deck_timer_run_Cons)
qed

lemma deck_no_interval_no_tick:
  "intervals s = {} \<Longrightarrow> deck_timer_run steps (map IntervalFires hs) s = s"
  by (induction hs) (simp_all add: deck_timer_run_Nil deck_timer_run_Cons deck_timer_event_def)

subsection \<open>Counting down\<close>

lemma deck_timer_run_append:
  "deck_timer_run steps (evs @ evs') s = deck_timer_run steps evs' (deck_timer_run steps evs s)"
  by (simp add: deck_timer_run_def)

lemma replicate_Suc_last: "replicate (Suc k) x = replicate k x @ [x]"
  by (simp add: replicate_append_same)

text \<open>\<open>k\<close> ticks of the active interval, while more than \<open>k\<close> seconds remain, only count down.\<close>

lemma deck_ticks_counting:
  assumes "int k < timerSeconds s" "h \<in> intervals s"
  shows "timerSeconds (deck_timer_run steps (replicate k (IntervalFires h)) s) = timerSeconds s - int k \<and>
         timerStepIndex (deck_timer_run steps (replicate k (IntervalFires h)) s) = timerStepIndex s \<and>
         timerRunning (deck_timer_run steps (replicate k (IntervalFires h)) s) = timerRunning s \<and>
         intervals (deck_timer_run steps (replicate k (IntervalFires h)) s) = intervals s \<and>
         timerInterval (deck_timer_run steps (replicate k (IntervalFires h)) s) = timerInterval s \<and>
         next_interval (deck_timer_run steps (replicate k (IntervalFires h)) s) = next_interval s \<and>
         timer_btn (deck_timer_run steps (replicate k (IntervalFires h)) s) = timer_btn s \<and>
         timer_reset (deck_timer_run steps (replicate k (IntervalFires h)) s) = timer_reset s"
  using assms
proof (induction k)
  case 0
  then show ?case by (simp add: deck_timer_run_Nil)
next
  case (Suc k)
  let ?s = "deck_timer_run steps (replicate k (IntervalFires h)) s"
  have "int k < timerSeconds s" using Suc.prems(1) by simp
  from Suc.IH[OF this Suc.prems(2)]
  have ih: "timerSeconds ?s = timerSeconds s - int k" "timerStepIndex ?s = timerStepIndex s"
    "timerRunning ?s = timerRunning s" "intervals ?s = intervals s"
    "timerInterval ?s = timerInterval s" "next_interval ?s = next_interval s"
    "timer_btn ?s = timer_btn s" "timer_reset ?s = timer_reset s"
    by simp_all
  have e: "deck_timer_run steps (replicate (Suc k) (IntervalFires h)) s = deck_tick steps ?s"
    unfolding replicate_Suc_last deck_timer_run_snoc
    using Suc.prems(2) by (simp add: deck_timer_event_def ih)
  have "1 < timerSeconds ?s" using Suc.prems(1) by (simp add: ih)
  note c = deck_tick_counting[OF this, of steps]
  show ?case unfolding e c ih by simp
qed

text \<open>One tick of the active interval.\<close>

lemma deck_timer_run_tick:
  "h \<in> intervals s \<Longrightarrow> deck_timer_run steps [IntervalFires h] s = deck_tick steps s"
  by (simp add: deck_timer_run_def deck_timer_event_def)

text \<open>
  From a state with \<open>d\<close> seconds left, \<open>d\<close> ticks of the active interval end the step: the
  first \<open>d - 1\<close> count down to one second and the last one advances or finishes.
\<close>

lemma deck_ticks_through_step:
  assumes "timerSeconds s = int (Suc k)" "h \<in> intervals s"
  shows "deck_timer_run steps (replicate (Suc k) (IntervalFires h)) s =
           deck_tick steps (deck_timer_run steps (replicate k (IntervalFires h)) s)"
    and "timerSeconds (deck_timer_run steps (replicate k (IntervalFires h)) s) = 1"
    and "timerStepIndex (deck_timer_run steps (replicate k (IntervalFires h)) s) = timerStepIndex s"
    and "timerRunning (deck_timer_run steps (replicate k (IntervalFires h)) s) = timerRunning s"
    and "intervals (deck_timer_run steps (replicate k (IntervalFires h)) s) = intervals s"
    and "timerInterval (deck_timer_run steps (replicate k (IntervalFires h)) s) = timerInterval s"
    and "timer_btn (deck_timer_run steps (replicate k (IntervalFires h)) s) = timer_btn s"
proof -
  have "int k < timerSeconds s" using assms(1) by simp
  note c = deck_ticks_counting[OF this assms(2), of steps]
  show "timerSeconds (deck_timer_run steps (replicate k (IntervalFires h)) s) = 1"
    using c assms(1) by simp
  show "timerStepIndex (deck_timer_run steps (replicate k (IntervalFires h)) s) = timerStepIndex s"
    using c by simp
  show "timerRunning (deck_timer_run steps (replicate k (IntervalFires h)) s) = timerRunning s"
    using c by simp
  show i: "intervals (deck_timer_run steps (replicate k (IntervalFires h)) s) = intervals s"
    using c by simp
  show "timerInterval (deck_timer_run steps (replicate k (IntervalFires h)) s) = timerInterval s"
    using c by simp
  show "timer_btn (deck_timer_run steps (replicate k (IntervalFires h)) s) = timer_btn s"
    using c by simp
  show "deck_timer_run steps (replicate (Suc k) (IntervalFires h)) s =
           deck_tick steps (deck_timer_run steps (replicate k (IntervalFires h)) s)"
    unfolding replicate_Suc_last deck_timer_run_snoc
    using assms(2) by (simp add: deck_timer_event_def i)
qed

subsection \<open>The example of the specification: steps of 10 and 5 seconds\<close>

lemma example_len:
  "length example_steps = 2" "duration (example_steps ! Suc 0) = 5"
  by (simp_all add: example_steps_def)

lemma example_idle:
  "timerSeconds (state_of (deck_setupTimer example_steps example_timer)) = 10"
  "timerStepIndex (state_of (deck_setupTimer example_steps example_timer)) = 0"
  "timerRunning (state_of (deck_setupTimer example_steps example_timer)) = False"
  "intervals (state_of (deck_setupTimer example_steps example_timer)) = {}"
  "next_interval (state_of (deck_setupTimer example_steps example_timer)) = Suc 0"
  "timer_btn (state_of (deck_setupTimer example_steps example_timer)) =
     Some \<lparr>b_text = ''Start'', b_class = ''timer-btn timer-btn--start'', b_disabled = False\<rparr>"
  "timer_reset (state_of (deck_setupTimer example_steps example_timer)) = True"
  by (simp_all add: deck_setupTimer_def example_steps_def example_timer_def page_load_def Let_def)

lemma example_started:
  defines "s1 \<equiv> deck_timer_event example_steps ClickTimerBtn
                  (state_of (deck_setupTimer example_steps example_timer))"
  shows "timerSeconds s1 = 10" "timerStepIndex s1 = 0" "timerRunning s1 = True"
    "intervals s1 = {Suc 0}" "timerInterval s1 = Some (Suc 0)"
    "timer_btn s1 = Some \<lparr>b_text = ''Pause'', b_class = ''timer-btn timer-btn--pause'', b_disabled = False\<rparr>"
  unfolding s1_def
  by (simp_all add: deck_timer_event_def example_idle deck_startTimer_vars)

lemma example_after_10:
  defines "s10 \<equiv> deck_timer_run example_steps (ClickTimerBtn # replicate 10 (IntervalFires (Suc 0)))
                  (state_of (deck_setupTimer example_steps example_timer))"
  shows "timerSeconds s10 = 5" "timerStepIndex s10 = 1" "timerRunning s10 = True"
    "intervals s10 = {Suc 0}" "timerInterval s10 = Some (Suc 0)"
    "timer_btn s10 = Some \<lparr>b_text = ''Pause'', b_class = ''timer-btn timer-btn--pause'', b_disabled = False\<rparr>"
proof -
  let ?s1 = "deck_timer_event example_steps ClickTimerBtn
                  (state_of (deck_setupTimer example_steps example_timer))"
  let ?s9 = "deck_timer_run example_steps (replicate 9 (IntervalFires (Suc 0))) ?s1"
  have a: "timerSeconds ?s1 = int (Suc 9)" "Suc 0 \<in> intervals ?s1"
    by (simp_all add: example_started)
  note t = deck_ticks_through_step[OF a, of example_steps]
  have ten: "(10::nat) = Suc 9" by simp
  have e: "s10 = deck_tick example_steps ?s9"
    unfolding s10_def deck_timer_run_Cons ten t(1) ..
  have c: "timerSeconds ?s9 \<le> 1" "timerStepIndex ?s9 + 1 < length example_steps"
    by (simp_all add: t example_started example_len)
  note adv = deck_tick_advancing[OF c]
  show "timerSeconds s10 = 5" unfolding e adv by (simp add: t example_started example_len)
  show "timerStepIndex s10 = 1" unfolding e adv by (simp add: t example_started)
  show "timerRunning s10 = True" unfolding e adv by (simp add: t example_started)
  show "intervals s10 = {Suc 0}" unfolding e adv by (simp add: t example_started)
  show "timerInterval s10 = Some (Suc 0)" unfolding e adv by (simp add: t example_started)
  show "timer_btn s10 = Some \<lparr>b_text = ''Pause'', b_class = ''timer-btn timer-btn--pause'', b_disabled = False\<rparr>"
    unfolding e adv by (simp add: t example_started)
qed

lemma example_after_15:
  defines "s15 \<equiv> deck_timer_run example_steps (replicate 5 (IntervalFires (Suc 0)))
                  (deck_timer_run example_steps (ClickTimerBtn # replicate 10 (IntervalFires (Suc 0)))
                     (state_of (deck_setupTimer example_steps example_timer)))"
  shows "timerSeconds s15 = 0" "timerStepIndex s15 = 2" "timerRunning s15 = False"
    "intervals s15 = {}"
    "timer_btn s15 = Some \<lparr>b_text = ''Done'', b_class = ''timer-btn timer-btn--pause'', b_disabled = True\<rparr>"
proof -
  let ?s10 = "deck_timer_run example_steps (ClickTimerBtn # replicate 10 (IntervalFires (Suc 0)))
                  (state_of (deck_setupTimer example_steps example_timer))"
  let ?s14 = "deck_timer_run example_steps (replicate 4 (IntervalFires (Suc 0))) ?s10"
  have a: "timerSeconds ?s10 = int (Suc 4)" "Suc 0 \<in> intervals ?s10"
    by (simp_all add: example_after_10)
  note t = deck_ticks_through_step[OF a, of example_steps]
  have five: "(5::nat) = Suc 4" by simp
  have e: "s15 = deck_tick example_steps ?s14"
    unfolding s15_def five t(1) ..
  have c: "timerSeconds ?s14 \<le> 1" "length example_steps \<le> timerStepIndex ?s14 + 1"
    by (simp_all add: t example_after_10 example_len)
  note fin = deck_tick_finishing[OF c]
  show "timerSeconds s15 = 0" unfolding e fin ..
  show "timerStepIndex s15 = 2" unfolding e fin by (simp add: t example_after_10)
  show "timerRunning s15 = False" unfolding e fin ..
  show "intervals s15 = {}" unfolding e fin by (simp add: t example_after_10)
  show "timer_btn s15 = Some \<lparr>b_text = ''Done'', b_class = ''timer-btn timer-btn--pause'', b_disabled = True\<rparr>"
    unfolding e fin by (simp add: t example_after_10)
qed

subsection \<open>Rendering the remaining time\<close>

lemma show_nat_two_digits:
  "n < 10 \<Longrightarrow> show_nat n = [digit_char n]"
  "10 \<le> n \<Longrightarrow> n < 100 \<Longrightarrow> show_nat n = [digit_char (n div 10), digit_char (n mod 10)]"
proof -
  show "n < 10 \<Longrightarrow> show_nat n = [digit_char n]"
    by (subst show_nat.simps) simp
  assume a: "10 \<le> n" "n < 100"
  then have "n div 10 < 10" by simp
  then have "show_nat (n div 10) = [digit_char (n div 10)]"
    by (subst show_nat.simps) simp
  then show "show_nat n = [digit_char (n div 10), digit_char (n mod 10)]"
    using a by (subst show_nat.simps) simp
qed

text \<open>A number below 100, padded as the scripts pad minutes and seconds.\<close>

lemma padded_two_digits:
  assumes "0 \<le> m" "m < 100"
  shows "(if m < 10 then ''0'' else []) @ show_int m =
         [digit_char (nat m div 10), digit_char (nat m mod 10)]"
proof (cases "m < 10")
  case True
  then have "nat m < 10" using assms by simp
  then show ?thesis using True assms
    by (simp add: show_int_def show_nat_two_digits(1) digit_char_def)
next
  case False
  then have "10 \<le> nat m" "nat m < 100" using assms by simp_all
  then show ?thesis using False assms
    by (simp add: show_int_def show_nat_two_digits(2))
qed

lemma deck_renderTimer_display:
  assumes "timer_display s = Some d"
  shows "timer_display (deck_renderTimer steps s) =
           Some \<lparr>d_text = (if timerSeconds s div 60 < 10 then ''0'' else []) @ show_int (timerSeconds s div 60)
                           @ '':'' @
                           (if js_rem (timerSeconds s) 60 < 10 then ''0'' else []) @
                           show_int (js_rem (timerSeconds s) 60),
                  d_class = (if timerSeconds s \<le> 10 \<and> 0 < timerSeconds s then ''timer-display danger''
                             else if timerSeconds s \<le> 30 then ''timer-display warning''
                             else ''timer-display'')\<rparr>"
  using assms by (simp add: deck_renderTimer_def Let_def split: option.splits)

lemma deck_renderTimer_absent:
  "timer_display s = None \<Longrightarrow> deck_renderTimer steps s = s"
  by (simp add: deck_renderTimer_def)

lemma deck_renderTimer_text:
  assumes "timer_display s = Some d" "0 \<le> timerSeconds s" "timerSeconds s < 6000"
  shows "map_option d_text (timer_display (deck_renderTimer steps s)) =
           Some [digit_char (nat (timerSeconds s) div 600), digit_char (nat (timerSeconds s) div 60 mod 10),
                 CHR '':'',
                 digit_char (nat (timerSeconds s) mod 60 div 10), digit_char (nat (timerSeconds s) mod 10)]"
proof -
  let ?r = "timerSeconds s"
  have m: "0 \<le> ?r div 60" "?r div 60 < 100" using assms(2,3) by simp_all
  have r: "js_rem ?r 60 = ?r mod 60" using assms(2) by (simp add: js_rem_def sgn_if)
  have sec: "0 \<le> ?r mod 60" "?r mod 60 < 100" by simp_all
  have n1: "nat (?r div 60) div 10 = nat ?r div 600" "nat (?r div 60) mod 10 = nat ?r div 60 mod 10"
    using assms(2) by (simp_all add: nat_div_distrib div_mult2_eq)
  have n2: "nat (?r mod 60) div 10 = nat ?r mod 60 div 10" "nat (?r mod 60) mod 10 = nat ?r mod 10"
    using assms(2) by (simp_all add: nat_mod_distrib mod_mod_cancel)
  show ?thesis
    unfolding deck_renderTimer_display[OF assms(1)] r
    using padded_two_digits[OF m] padded_two_digits[OF sec]
    by (simp add: n1 n2)
qed

subsection \<open>The remaining seconds stay between 0 and the longest step\<close>

lemma deck_tick_bounds:
  assumes "\<forall>st \<in> set steps. 0 \<le> duration st \<and> duration st \<le> M" "0 \<le> M"
    and "timerSeconds s \<le> M"
  shows "0 \<le> timerSeconds (deck_tick steps s) \<and> timerSeconds (deck_tick steps s) \<le> M"
proof (cases "1 < timerSeconds s")
  case True
  show ?thesis unfolding deck_tick_counting(1)[OF True] using True assms(3) by simp
next
  case False
  then have le: "timerSeconds s \<le> 1" by simp
  show ?thesis
  proof (cases "timerStepIndex s + 1 < length steps")
    case True
    then have "steps ! (timerStepIndex s + 1) \<in> set steps" by (rule nth_mem)
    with assms(1) show ?thesis unfolding deck_tick_advancing(1)[OF le True] by blast
  next
    case False
    then have "length steps \<le> timerStepIndex s + 1" by simp
    from deck_tick_finishing(1)[OF le this] show ?thesis using assms(2) by simp
  qed
qed

lemma deck_timer_event_bounds:
  assumes "\<forall>st \<in> set steps. 0 \<le> duration st \<and> duration st \<le> M" "0 \<le> M"
    and "0 \<le> timerSeconds s \<and> timerSeconds s \<le> M"
  shows "0 \<le> timerSeconds (deck_timer_event steps ev s) \<and> timerSeconds (deck_timer_event steps ev s) \<le> M"
proof (cases ev)
  case ClickTimerBtn
  then show ?thesis using assms(3)
    by (simp add: deck_timer_event_def deck_startTimer_vars deck_pauseTimer_vars split: option.splits)
next
  case ClickTimerReset
  show ?thesis
  proof (cases steps)
    case Nil
    then show ?thesis using assms(3) ClickTimerReset
      by (simp add: deck_timer_event_def deck_resetTimer_empty)
  next
    case (Cons st rest)
    then have "0 \<le> duration st \<and> duration st \<le> M" using assms(1) by simp
    then show ?thesis using assms(3) ClickTimerReset Cons
      by (simp add: deck_timer_event_def deck_resetTimer_vars)
  qed
next
  case (IntervalFires h)
  then show ?thesis using assms(3) deck_tick_bounds[OF assms(1,2), of s]
    by (simp add: deck_timer_event_def)
qed

lemma deck_timer_run_bounds:
  assumes "\<forall>st \<in> set steps. 0 \<le> duration st \<and> duration st \<le> M" "0 \<le> M"
  shows "0 \<le> timerSeconds s \<and> timerSeconds s \<le> M \<Longrightarrow>
         0 \<le> timerSeconds (deck_timer_run steps evs s) \<and> timerSeconds (deck_timer_run steps evs s) \<le> M"
proof (induction evs arbitrary: s)
  case Nil
  then show ?case by (simp add: deck_timer_run_Nil)
next
  case (Cons ev evs)
  from Cons.IH[OF deck_timer_event_bounds[OF assms Cons.prems, of ev]]
  show ?case by (simp add: deck_timer_run_Cons)
qed

lemma deck_setupTimer_bounds:
  assumes "\<forall>st \<in> set steps. 0 \<le> duration st \<and> duration st \<le> M" "0 \<le> M"
  shows "0 \<le> timerSeconds (state_of (deck_setupTimer steps (page_load btn resetBtn disp stepEl))) \<and>
         timerSeconds (state_of (deck_setupTimer steps (page_load btn resetBtn disp stepEl))) \<le> M"
proof (cases steps)
  case Nil
  then show ?thesis using assms(2)
    by (cases btn) (simp_all add: deck_setupTimer_def page_load_def Let_def)
next
  case (Cons st rest)
  then have "0 \<le> duration st \<and> duration st \<le> M" using assms(1) by simp
  then show ?thesis using assms(2) Cons
    by (cases btn) (simp_all add: deck_setupTimer_def page_load_def Let_def)
qed

lemma tables_bounded:
  "\<forall>st \<in> set (ACTIVITY_STEPS e). 0 \<le> duration st \<and> duration st \<le> 180"
  by (cases e) (simp_all add: ACTIVITY_STEPS_def deck_ACTIVITY_STEPS_def p1_ACTIVITY_STEPS_def)

lemma reachable_seconds_bounded:
  "0 \<le> timerSeconds (timer_run e (ACTIVITY_STEPS e) evs
          (state_of (setupTimer e (ACTIVITY_STEPS e) (page_load btn resetBtn disp stepEl)))) \<and>
   timerSeconds (timer_run e (ACTIVITY_STEPS e) evs
          (state_of (setupTimer e (ACTIVITY_STEPS e) (page_load btn resetBtn disp stepEl)))) \<le> 180"
  unfolding engine_timer
  by (rule deck_timer_run_bounds[OF tables_bounded _ deck_setupTimer_bounds[OF tables_bounded]]) simp_all

subsection \<open>Claims about the timer\<close>

text \<open>
  C1. One tick, in either script and for any table of steps. While more than one second
  remains the tick takes one second off and leaves step, running flag and interval alone.
  When the second that remains runs out and a further step exists, the step index goes up
  by one, the remaining seconds become that step's duration, and the timer keeps running
  on the same interval. When no further step exists, the interval that \<open>timerInterval\<close>
  names is cancelled (so that, with the interval table as the scripts keep it, no interval
  is left), the remaining seconds are 0, the timer is not running, the step index has
  reached the number of steps, and the start control reads \<^verbatim>\<open>Done\<close> and is disabled.
  For the steps of 10 and 5 seconds on a page with all timer elements: after set-up the
  timer is idle at step 0 with 10 seconds; a click on start and 10 ticks give step index 1
  with 5 seconds, still running; 5 more ticks give the completed state.
\<close>

theorem timer_tick_transition:
  "(1 < timerSeconds s \<longrightarrow>
      timerSeconds (tick e steps s) = timerSeconds s - 1 \<and>
      timerStepIndex (tick e steps s) = timerStepIndex s \<and>
      timerRunning (tick e steps s) = timerRunning s \<and>
      intervals (tick e steps s) = intervals s \<and>
      timer_btn (tick e steps s) = timer_btn s) \<and>
   (timerSeconds s \<le> 1 \<and> timerStepIndex s + 1 < length steps \<longrightarrow>
      timerStepIndex (tick e steps s) = timerStepIndex s + 1 \<and>
      timerSeconds (tick e steps s) = duration (steps ! (timerStepIndex s + 1)) \<and>
      timerRunning (tick e steps s) = timerRunning s \<and>
      intervals (tick e steps s) = intervals s \<and>
      timer_btn (tick e steps s) = timer_btn s) \<and>
   (timerSeconds s \<le> 1 \<and> length steps \<le> timerStepIndex s + 1 \<longrightarrow>
      timerSeconds (tick e steps s) = 0 \<and>
      timerStepIndex (tick e steps s) = timerStepIndex s + 1 \<and>
      timerRunning (tick e steps s) = False \<and>
      intervals (tick e steps s) = intervals s - set_option (timerInterval s) \<and>
      (timer_inv s \<longrightarrow> intervals (tick e steps s) = {}) \<and>
      timer_btn (tick e steps s) =
        map_option (\<lambda>b. b\<lparr>b_text := ''Done'', b_disabled := True\<rparr>) (timer_btn s)) \<and>
   timerStepIndex (state_of (setupTimer e example_steps example_timer)) = 0 \<and>
   timerSeconds (state_of (setupTimer e example_steps example_timer)) = 10 \<and>
   timerRunning (state_of (setupTimer e example_steps example_timer)) = False \<and>
   timerStepIndex (timer_run e example_steps (ClickTimerBtn # replicate 10 (IntervalFires 1))
      (state_of (setupTimer e example_steps example_timer))) = 1 \<and>
   timerSeconds (timer_run e example_steps (ClickTimerBtn # replicate 10 (IntervalFires 1))
      (state_of (setupTimer e example_steps example_timer))) = 5 \<and>
   timerRunning (timer_run e example_steps (ClickTimerBtn # replicate 10 (IntervalFires 1))
      (state_of (setupTimer e example_steps example_timer))) = True \<and>
   timerStepIndex (timer_run e example_steps (replicate 5 (IntervalFires 1))
      (timer_run e example_steps (ClickTimerBtn # replicate 10 (IntervalFires 1))
         (state_of (setupTimer e example_steps example_timer)))) = length example_steps \<and>
   timerSeconds (timer_run e example_steps (replicate 5 (IntervalFires 1))
      (timer_run e example_steps (ClickTimerBtn # replicate 10 (IntervalFires 1))
         (state_of (setupTimer e example_steps example_timer)))) = 0 \<and>
   timerRunning (timer_run e example_steps (replicate 5 (IntervalFires 1))
      (timer_run e example_steps (ClickTimerBtn # replicate 10 (IntervalFires 1))
         (state_of (setupTimer e example_steps example_timer)))) = False \<and>
   intervals (timer_run e example_steps (replicate 5 (IntervalFires 1))
      (timer_run e example_steps (ClickTimerBtn # replicate 10 (IntervalFires 1))
         (state_of (setupTimer e example_steps example_timer)))) = {} \<and>
   timer_btn (timer_run e example_steps (replicate 5 (IntervalFires 1))
      (timer_run e example_steps (ClickTimerBtn # replicate 10 (IntervalFires 1))
         (state_of (setupTimer e example_steps example_timer)))) =
     Some \<lparr>b_text = ''Done'', b_class = ''timer-btn timer-btn--pause'', b_disabled = True\<rparr>"
proof (intro conjI impI)
  assume "1 < timerSeconds s"
  note c = deck_tick_counting[OF this, of steps]
  show "timerSeconds (tick e steps s) = timerSeconds s - 1"
    "timerStepIndex (tick e steps s) = timerStepIndex s"
    "timerRunning (tick e steps s) = timerRunning s"
    "intervals (tick e steps s) = intervals s"
    "timer_btn (tick e steps s) = timer_btn s"
    unfolding engine_timer by (rule c)+
next
  assume "timerSeconds s \<le> 1 \<and> timerStepIndex s + 1 < length steps"
  then have "timerSeconds s \<le> 1" "timerStepIndex s + 1 < length steps" by simp_all
  note c = deck_tick_advancing[OF this]
  show "timerStepIndex (tick e steps s) = timerStepIndex s + 1"
    "timerSeconds (tick e steps s) = duration (steps ! (timerStepIndex s + 1))"
    "timerRunning (tick e steps s) = timerRunning s"
    "intervals (tick e steps s) = intervals s"
    "timer_btn (tick e steps s) = timer_btn s"
    unfolding engine_timer by (rule c)+
next
  assume "timerSeconds s \<le> 1 \<and> length steps \<le> timerStepIndex s + 1"
  then have "timerSeconds s \<le> 1" "length steps \<le> timerStepIndex s + 1" by simp_all
  note c = deck_tick_finishing[OF this]
  show "timerSeconds (tick e steps s) = 0"
    "timerStepIndex (tick e steps s) = timerStepIndex s + 1"
    "timerRunning (tick e steps s) = False"
    "intervals (tick e steps s) = intervals s - set_option (timerInterval s)"
    "timer_btn (tick e steps s) =
        map_option (\<lambda>b. b\<lparr>b_text := ''Done'', b_disabled := True\<rparr>) (timer_btn s)"
    unfolding engine_timer by (rule c)+
  assume "timer_inv s"
  then show "intervals (tick e steps s) = {}"
    unfolding engine_timer c by (auto simp: timer_inv_def)
qed (simp_all add: engine_timer example_idle example_after_10 example_after_15 example_len)

text \<open>
  The three cases at states of the example: ten seconds left in step 0; one second left in
  step 0, which has a successor; one second left in step 1, the last, with interval 1 active.
\<close>

theorem timer_tick_transition_witness:
  "timerSeconds (tick DeckJs example_steps (example_timer\<lparr>timerSeconds := 10\<rparr>)) = 9 \<and>
   timerStepIndex (tick DeckJs example_steps (example_timer\<lparr>timerSeconds := 10\<rparr>)) = 0 \<and>
   timerStepIndex (tick SecondScript example_steps (example_timer\<lparr>timerSeconds := 1\<rparr>)) = 1 \<and>
   timerSeconds (tick SecondScript example_steps (example_timer\<lparr>timerSeconds := 1\<rparr>)) = 5 \<and>
   timerSeconds (tick DeckJs example_steps
      (example_timer\<lparr>timerSeconds := 1, timerStepIndex := 1, timerRunning := True,
                     timerInterval := Some 1, intervals := {1}, next_interval := 2\<rparr>)) = 0 \<and>
   timerRunning (tick DeckJs example_steps
      (example_timer\<lparr>timerSeconds := 1, timerStepIndex := 1, timerRunning := True,
                     timerInterval := Some 1, intervals := {1}, next_interval := 2\<rparr>)) = False \<and>
   intervals (tick DeckJs example_steps
      (example_timer\<lparr>timerSeconds := 1, timerStepIndex := 1, timerRunning := True,
                     timerInterval := Some 1, intervals := {1}, next_interval := 2\<rparr>)) = {} \<and>
   timer_btn (tick DeckJs example_steps
      (example_timer\<lparr>timerSeconds := 1, timerStepIndex := 1, timerRunning := True,
                     timerInterval := Some 1, intervals := {1}, next_interval := 2\<rparr>)) =
     Some \<lparr>b_text = ''Done'', b_class = ''timer-btn timer-btn--start'', b_disabled = True\<rparr>"
proof -
  let ?a = "example_timer\<lparr>timerSeconds := 10\<rparr>"
  let ?b = "example_timer\<lparr>timerSeconds := 1\<rparr>"
  let ?c = "example_timer\<lparr>timerSeconds := 1, timerStepIndex := 1, timerRunning := True,
                     timerInterval := Some 1, intervals := {1}, next_interval := 2\<rparr>"
  have ha: "1 < timerSeconds ?a" by simp
  have hb: "timerSeconds ?b \<le> 1 \<and> timerStepIndex ?b + 1 < length example_steps"
    by (simp add: example_timer_def page_load_def example_steps_def)
  have hc: "timerSeconds ?c \<le> 1 \<and> length example_steps \<le> timerStepIndex ?c + 1" "timer_inv ?c"
    by (simp_all add: example_steps_def timer_inv_def)
  have va: "timerSeconds ?a - 1 = 9" "timerStepIndex ?a = 0"
    by (simp_all add: example_timer_def page_load_def)
  have vb: "timerStepIndex ?b + 1 = 1" "duration (example_steps ! (timerStepIndex ?b + 1)) = 5"
    by (simp_all add: example_timer_def page_load_def example_steps_def)
  have vc: "map_option (\<lambda>b. b\<lparr>b_text := ''Done'', b_disabled := True\<rparr>) (timer_btn ?c) =
      Some \<lparr>b_text = ''Done'', b_class = ''timer-btn timer-btn--start'', b_disabled = True\<rparr>"
    by (simp add: example_timer_def page_load_def)
  note ta = timer_tick_transition[of ?a DeckJs example_steps, THEN conjunct1, rule_format, OF ha]
  note tb = timer_tick_transition[of ?b SecondScript example_steps, THEN conjunct2, THEN conjunct1,
              rule_format, OF hb]
  note tc = timer_tick_transition[of ?c DeckJs example_steps, THEN conjunct2, THEN conjunct2,
              THEN conjunct1, rule_format, OF hc(1)]
  have a: "timerSeconds (tick DeckJs example_steps ?a) = 9"
          "timerStepIndex (tick DeckJs example_steps ?a) = 0"
    using ta va by simp_all
  have b: "timerStepIndex (tick SecondScript example_steps ?b) = 1"
          "timerSeconds (tick SecondScript example_steps ?b) = 5"
    using tb vb by simp_all
  have c: "timerSeconds (tick DeckJs example_steps ?c) = 0"
          "timerRunning (tick DeckJs example_steps ?c) = False"
          "intervals (tick DeckJs example_steps ?c) = {}"
          "timer_btn (tick DeckJs example_steps ?c) =
             Some \<lparr>b_text = ''Done'', b_class = ''timer-btn timer-btn--start'', b_disabled = True\<rparr>"
    using tc vc hc(2) by simp_all
  from a b c show ?thesis by (intro conjI)
qed

text \<open>
  C4. Reset, in either script, on a table with a first step \<open>st\<close> and from any state:
  it returns normally with step index 0, the duration of \<open>st\<close> as remaining seconds, the
  timer not running, the start control re-enabled and labelled \<^verbatim>\<open>Start\<close>, and the interval
  that \<open>timerInterval\<close> names cancelled. The scripts keep the interval table such that this
  is the only interval there can be (\<open>timer_inv\<close>, which holds after page load and set-up
  and after every sequence of events: the last conjunct). From such a state no interval is
  active after the reset: interval firings alone leave the reset state as it is, whatever
  their handles, and whatever events follow, no handle issued before the reset is ever
  active again. Cancelling is the first statement of \<^verbatim>\<open>resetTimer\<close>, and a handler runs to
  its end before the next event is delivered.
\<close>

theorem reset_restores_first_step_and_cancels_tick:
  "(\<exists>s'. resetTimer e (st # rest) s = Normal s' \<and>
       timerStepIndex s' = 0 \<and> timerSeconds s' = duration st \<and> timerRunning s' = False \<and>
       timer_btn s' =
         map_option (\<lambda>b. b\<lparr>b_text := ''Start'', b_class := ''timer-btn timer-btn--start'',
                            b_disabled := False\<rparr>) (timer_btn s) \<and>
       intervals s' = intervals s - set_option (timerInterval s) \<and>
       next_interval s' = next_interval s \<and>
       (timer_inv s \<longrightarrow>
          intervals s' = {} \<and>
          (\<forall>hs. timer_run e (st # rest) (map IntervalFires hs) s' = s') \<and>
          (\<forall>evs h. h < next_interval s' \<longrightarrow> h \<notin> intervals (timer_run e (st # rest) evs s')))) \<and>
   timer_inv (timer_run e steps evs0 (state_of (setupTimer e steps (page_load btn resetBtn disp stepEl))))"
proof (rule conjI)
  from deck_resetTimer_normal[of st rest s] obtain s' where
    s': "deck_resetTimer (st # rest) s = Normal s'" ..
  have st: "state_of (deck_resetTimer (st # rest) s) = s'" by (simp add: s')
  note v = deck_resetTimer_vars[of st rest s, unfolded st]
  have inv: "intervals s' = {} \<and>
          (\<forall>hs. deck_timer_run (st # rest) (map IntervalFires hs) s' = s') \<and>
          (\<forall>evs h. h < next_interval s' \<longrightarrow> h \<notin> intervals (deck_timer_run (st # rest) evs s'))"
    if i: "timer_inv s"
  proof (intro conjI allI impI)
    show e: "intervals s' = {}" using i unfolding v by (auto simp: timer_inv_def)
    show "deck_timer_run (st # rest) (map IntervalFires hs) s' = s'" for hs
      by (rule deck_no_interval_no_tick[OF e])
    fix evs h
    assume h: "h < next_interval s'"
    have "next_interval s' \<le> next_interval s'" "\<forall>h \<in> intervals s'. next_interval s' \<le> h"
      by (simp_all add: e)
    from deck_timer_run_fresh[OF this, of "st # rest" evs]
    have "\<forall>k \<in> intervals (deck_timer_run (st # rest) evs s'). next_interval s' \<le> k" by simp
    with h show "h \<notin> intervals (deck_timer_run (st # rest) evs s')" by auto
  qed
  show "\<exists>s'. resetTimer e (st # rest) s = Normal s' \<and>
       timerStepIndex s' = 0 \<and> timerSeconds s' = duration st \<and> timerRunning s' = False \<and>
       timer_btn s' =
         map_option (\<lambda>b. b\<lparr>b_text := ''Start'', b_class := ''timer-btn timer-btn--start'',
                            b_disabled := False\<rparr>) (timer_btn s) \<and>
       intervals s' = intervals s - set_option (timerInterval s) \<and>
       next_interval s' = next_interval s \<and>
       (timer_inv s \<longrightarrow>
          intervals s' = {} \<and>
          (\<forall>hs. timer_run e (st # rest) (map IntervalFires hs) s' = s') \<and>
          (\<forall>evs h. h < next_interval s' \<longrightarrow> h \<notin> intervals (timer_run e (st # rest) evs s')))"
    unfolding engine_timer
    by (rule exI[of _ s']) (intro conjI impI s' v(2) v(1) v(3) v(7) v(4) v(6) inv)
next
  show "timer_inv (timer_run e steps evs0 (state_of (setupTimer e steps (page_load btn resetBtn disp stepEl))))"
    unfolding engine_timer
    by (intro deck_timer_run_inv deck_setupTimer_inv page_load_inv)
qed

text \<open>
  The theorem at a running state of the example (one second left in the last step,
  interval 1 active): after the reset, two firings of interval 1 change nothing, and after
  a new start handle 1 is not active.
\<close>

theorem reset_restores_first_step_and_cancels_tick_witness:
  "timer_inv (example_timer\<lparr>timerSeconds := 1, timerStepIndex := 1, timerRunning := True,
                            timerInterval := Some 1, intervals := {1}, next_interval := 2\<rparr>) \<and>
   (\<exists>s'. resetTimer SecondScript example_steps
            (example_timer\<lparr>timerSeconds := 1, timerStepIndex := 1, timerRunning := True,
                            timerInterval := Some 1, intervals := {1}, next_interval := 2\<rparr>) = Normal s' \<and>
       timerStepIndex s' = 0 \<and> timerSeconds s' = 10 \<and> timerRunning s' = False \<and>
       timer_btn s' =
         Some \<lparr>b_text = ''Start'', b_class = ''timer-btn timer-btn--start'', b_disabled = False\<rparr> \<and>
       intervals s' = {} \<and>
       timer_run SecondScript example_steps (map IntervalFires [1, 1]) s' = s' \<and>
       1 \<notin> intervals (timer_run SecondScript example_steps [ClickTimerBtn] s'))"
proof -
  let ?c = "example_timer\<lparr>timerSeconds := 1, timerStepIndex := 1, timerRunning := True,
                     timerInterval := Some 1, intervals := {1}, next_interval := 2\<rparr>"
  have steps: "example_steps = \<lparr>label = ''first'', duration = 10\<rparr> # [\<lparr>label = ''second'', duration = 5\<rparr>]"
    by (simp add: example_steps_def)
  have hc: "timer_inv ?c" by (simp add: timer_inv_def)
  from reset_restores_first_step_and_cancels_tick[of SecondScript "\<lparr>label = ''first'', duration = 10\<rparr>"
      "[\<lparr>label = ''second'', duration = 5\<rparr>]" ?c, THEN conjunct1, folded steps]
  obtain s' where s': "resetTimer SecondScript example_steps ?c = Normal s'"
    "timerStepIndex s' = 0" "timerSeconds s' = duration \<lparr>label = ''first'', duration = 10\<rparr>"
    "timerRunning s' = False"
    "timer_btn s' =
         map_option (\<lambda>b. b\<lparr>b_text := ''Start'', b_class := ''timer-btn timer-btn--start'',
                            b_disabled := False\<rparr>) (timer_btn ?c)"
    "timer_inv ?c \<longrightarrow>
          intervals s' = {} \<and>
          (\<forall>hs. timer_run SecondScript example_steps (map IntervalFires hs) s' = s') \<and>
          (\<forall>evs h. h < next_interval s' \<longrightarrow> h \<notin> intervals (timer_run SecondScript example_steps evs s'))"
    "intervals s' = intervals ?c - set_option (timerInterval ?c)"
    "next_interval s' = next_interval ?c"
    by (elim exE conjE)
  have n: "next_interval s' = 2" unfolding s'(8) by simp
  from s'(6) hc have a: "intervals s' = {}"
    "\<forall>hs. timer_run SecondScript example_steps (map IntervalFires hs) s' = s'"
    "\<forall>evs h. h < next_interval s' \<longrightarrow> h \<notin> intervals (timer_run SecondScript example_steps evs s')"
    by simp_all
  have i: "intervals s' = {}"
    "timer_run SecondScript example_steps (map IntervalFires [1, 1]) s' = s'"
    "1 \<notin> intervals (timer_run SecondScript example_steps [ClickTimerBtn] s')"
  proof -
    show "intervals s' = {}" by (rule a(1))
    show "timer_run SecondScript example_steps (map IntervalFires [1, 1]) s' = s'"
      using a(2) by (rule spec)
    have "(1::nat) < next_interval s'" unfolding n by simp
    with a(3) show "1 \<notin> intervals (timer_run SecondScript example_steps [ClickTimerBtn] s')"
      by blast
  qed
  have b: "timer_btn s' =
         Some \<lparr>b_text = ''Start'', b_class = ''timer-btn timer-btn--start'', b_disabled = False\<rparr>"
    unfolding s'(5) by (simp add: example_timer_def page_load_def)
  have d: "timerSeconds s' = 10" unfolding s'(3) by simp
  show ?thesis
    by (intro conjI hc exI[of _ s'] s'(1) s'(2) d s'(4) b i)
qed

text \<open>
  C6 (amended). Where the display element exists, the class that \<^verbatim>\<open>renderTimer\<close> gives it
  depends on the remaining seconds \<open>r\<close> alone, in either script: it is the danger class
  exactly when \<open>0 < r \<le> 10\<close>, the warning class exactly when \<open>10 < r \<le> 30\<close> or \<open>r \<le> 0\<close>, and
  the plain class exactly when \<open>30 < r\<close>. For \<open>0 \<le> r < 6000\<close> the text is two digits of
  minutes, a colon and two digits of seconds. With its own table of steps each script
  keeps \<open>r\<close> between 0 and 180 after set-up, whatever events arrive, so there the text
  always has that form.
\<close>

theorem timer_display_urgency_and_format:
  "(timer_display s = Some d \<longrightarrow>
      (\<exists>d'. timer_display (renderTimer e steps s) = Some d' \<and>
         (d_class d' = ''timer-display danger'') = (0 < timerSeconds s \<and> timerSeconds s \<le> 10) \<and>
         (d_class d' = ''timer-display warning'') =
            (10 < timerSeconds s \<and> timerSeconds s \<le> 30 \<or> timerSeconds s \<le> 0) \<and>
         (d_class d' = ''timer-display'') = (30 < timerSeconds s) \<and>
         (0 \<le> timerSeconds s \<and> timerSeconds s < 6000 \<longrightarrow>
            d_text d' =
              [digit_char (nat (timerSeconds s) div 600), digit_char (nat (timerSeconds s) div 60 mod 10),
               CHR '':'',
               digit_char (nat (timerSeconds s) mod 60 div 10), digit_char (nat (timerSeconds s) mod 10)]))) \<and>
   0 \<le> timerSeconds (timer_run e (ACTIVITY_STEPS e) evs
          (state_of (setupTimer e (ACTIVITY_STEPS e) (page_load btn resetBtn disp stepEl)))) \<and>
   timerSeconds (timer_run e (ACTIVITY_STEPS e) evs
          (state_of (setupTimer e (ACTIVITY_STEPS e) (page_load btn resetBtn disp stepEl)))) \<le> 180"
proof (intro conjI impI)
  assume d: "timer_display s = Some d"
  let ?d = "\<lparr>d_text = (if timerSeconds s div 60 < 10 then ''0'' else []) @ show_int (timerSeconds s div 60)
                           @ '':'' @
                           (if js_rem (timerSeconds s) 60 < 10 then ''0'' else []) @
                           show_int (js_rem (timerSeconds s) 60),
                  d_class = (if timerSeconds s \<le> 10 \<and> 0 < timerSeconds s then ''timer-display danger''
                             else if timerSeconds s \<le> 30 then ''timer-display warning''
                             else ''timer-display'')\<rparr>"
  have r: "timer_display (renderTimer e steps s) = Some ?d"
    unfolding engine_timer by (rule deck_renderTimer_display[OF d])
  have c1: "(d_class ?d = ''timer-display danger'') = (0 < timerSeconds s \<and> timerSeconds s \<le> 10)"
    by auto
  have c2: "(d_class ?d = ''timer-display warning'') =
            (10 < timerSeconds s \<and> timerSeconds s \<le> 30 \<or> timerSeconds s \<le> 0)"
    by auto
  have c3: "(d_class ?d = ''timer-display'') = (30 < timerSeconds s)"
    by auto
  have c4: "0 \<le> timerSeconds s \<and> timerSeconds s < 6000 \<longrightarrow>
            d_text ?d =
              [digit_char (nat (timerSeconds s) div 600), digit_char (nat (timerSeconds s) div 60 mod 10),
               CHR '':'',
               digit_char (nat (timerSeconds s) mod 60 div 10), digit_char (nat (timerSeconds s) mod 10)]"
  proof
    assume "0 \<le> timerSeconds s \<and> timerSeconds s < 6000"
    then have b: "0 \<le> timerSeconds s" "timerSeconds s < 6000" by simp_all
    from deck_renderTimer_text[OF d b, of steps]
    show "d_text ?d =
              [digit_char (nat (timerSeconds s) div 600), digit_char (nat (timerSeconds s) div 60 mod 10),
               CHR '':'',
               digit_char (nat (timerSeconds s) mod 60 div 10), digit_char (nat (timerSeconds s) mod 10)]"
      unfolding deck_renderTimer_display[OF d] by simp
  qed
  show "\<exists>d'. timer_display (renderTimer e steps s) = Some d' \<and>
         (d_class d' = ''timer-display danger'') = (0 < timerSeconds s \<and> timerSeconds s \<le> 10) \<and>
         (d_class d' = ''timer-display warning'') =
            (10 < timerSeconds s \<and> timerSeconds s \<le> 30 \<or> timerSeconds s \<le> 0) \<and>
         (d_class d' = ''timer-display'') = (30 < timerSeconds s) \<and>
         (0 \<le> timerSeconds s \<and> timerSeconds s < 6000 \<longrightarrow>
            d_text d' =
              [digit_char (nat (timerSeconds s) div 600), digit_char (nat (timerSeconds s) div 60 mod 10),
               CHR '':'',
               digit_char (nat (timerSeconds s) mod 60 div 10), digit_char (nat (timerSeconds s) mod 10)])"
    by (rule exI[of _ ?d]) (intro conjI r c1 c2 c3 c4)
next
  show "0 \<le> timerSeconds (timer_run e (ACTIVITY_STEPS e) evs
          (state_of (setupTimer e (ACTIVITY_STEPS e) (page_load btn resetBtn disp stepEl))))"
    using reachable_seconds_bounded[of e evs btn resetBtn disp stepEl] by (rule conjunct1)
  show "timerSeconds (timer_run e (ACTIVITY_STEPS e) evs
          (state_of (setupTimer e (ACTIVITY_STEPS e) (page_load btn resetBtn disp stepEl)))) \<le> 180"
    using reachable_seconds_bounded[of e evs btn resetBtn disp stepEl] by (rule conjunct2)
qed

text \<open>The theorem with 75 seconds left (plain, \<^verbatim>\<open>01:15\<close>) and with 7 seconds left (danger, \<^verbatim>\<open>00:07\<close>).\<close>

theorem timer_display_urgency_and_format_witness:
  "timer_display (renderTimer DeckJs deck_ACTIVITY_STEPS (example_timer\<lparr>timerSeconds := 75\<rparr>)) =
     Some \<lparr>d_text = ''01:15'', d_class = ''timer-display''\<rparr> \<and>
   timer_display (renderTimer SecondScript p1_ACTIVITY_STEPS (example_timer\<lparr>timerSeconds := 7\<rparr>)) =
     Some \<lparr>d_text = ''00:07'', d_class = ''timer-display danger''\<rparr>"
proof -
  let ?a = "example_timer\<lparr>timerSeconds := 75\<rparr>"
  let ?b = "example_timer\<lparr>timerSeconds := 7\<rparr>"
  have h: "timer_display ?a = Some \<lparr>d_text = [], d_class = ''timer-display''\<rparr>"
          "timer_display ?b = Some \<lparr>d_text = [], d_class = ''timer-display''\<rparr>"
    by (simp_all add: example_timer_def page_load_def)
  have v: "timerSeconds ?a = 75" "timerSeconds ?b = 7" by simp_all
  from timer_display_urgency_and_format[of ?a _ DeckJs deck_ACTIVITY_STEPS, THEN conjunct1, rule_format, OF h(1)]
  obtain da where da: "timer_display (renderTimer DeckJs deck_ACTIVITY_STEPS ?a) = Some da"
    "(d_class da = ''timer-display'') = (30 < timerSeconds ?a)"
    "0 \<le> timerSeconds ?a \<and> timerSeconds ?a < 6000 \<longrightarrow>
       d_text da =
         [digit_char (nat (timerSeconds ?a) div 600), digit_char (nat (timerSeconds ?a) div 60 mod 10),
          CHR '':'',
          digit_char (nat (timerSeconds ?a) mod 60 div 10), digit_char (nat (timerSeconds ?a) mod 10)]"
    by (elim exE conjE)
  from timer_display_urgency_and_format[of ?b _ SecondScript p1_ACTIVITY_STEPS, THEN conjunct1, rule_format, OF h(2)]
  obtain db where db: "timer_display (renderTimer SecondScript p1_ACTIVITY_STEPS ?b) = Some db"
    "(d_class db = ''timer-display danger'') = (0 < timerSeconds ?b \<and> timerSeconds ?b \<le> 10)"
    "0 \<le> timerSeconds ?b \<and> timerSeconds ?b < 6000 \<longrightarrow>
       d_text db =
         [digit_char (nat (timerSeconds ?b) div 600), digit_char (nat (timerSeconds ?b) div 60 mod 10),
          CHR '':'',
          digit_char (nat (timerSeconds ?b) mod 60 div 10), digit_char (nat (timerSeconds ?b) mod 10)]"
    by (elim exE conjE)
  have a: "d_class da = ''timer-display''" "d_text da = ''01:15''"
    using da(2,3) unfolding v by (simp_all add: digit_char_def)
  have b: "d_class db = ''timer-display danger''" "d_text db = ''00:07''"
    using db(2,3) unfolding v by (simp_all add: digit_char_def)
  have "da = \<lparr>d_text = ''01:15'', d_class = ''timer-display''\<rparr>"
       "db = \<lparr>d_text = ''00:07'', d_class = ''timer-display danger''\<rparr>"
    using a b by simp_all
  with da(1) db(1) show ?thesis by simp
qed

text \<open>
  Against C6 as stated: the tick that completes the last step of deck.js leaves 0 seconds
  and the display \<^verbatim>\<open>00:00\<close> in the warning class, not the plain one; and 6000 seconds
  render with three digits of minutes.
\<close>

theorem timer_display_at_zero_counterexample:
  "timerSeconds (deck_tick deck_ACTIVITY_STEPS
      (example_timer\<lparr>timerSeconds := 1, timerStepIndex := 3, timerRunning := True,
                     timerInterval := Some 1, intervals := {1}, next_interval := 2\<rparr>)) = 0 \<and>
   timer_display (deck_tick deck_ACTIVITY_STEPS
      (example_timer\<lparr>timerSeconds := 1, timerStepIndex := 3, timerRunning := True,
                     timerInterval := Some 1, intervals := {1}, next_interval := 2\<rparr>)) =
     Some \<lparr>d_text = ''00:00'', d_class = ''timer-display warning''\<rparr> \<and>
   timer_display (p1_renderTimer p1_ACTIVITY_STEPS (example_timer\<lparr>timerSeconds := 0\<rparr>)) =
     Some \<lparr>d_text = ''00:00'', d_class = ''timer-display warning''\<rparr> \<and>
   timer_display (deck_renderTimer deck_ACTIVITY_STEPS (example_timer\<lparr>timerSeconds := 6000\<rparr>)) =
     Some \<lparr>d_text = ''100:00'', d_class = ''timer-display''\<rparr>"
proof -
  have z: "show_nat 0 = ''0''" "show_nat 100 = ''100''"
    by (simp_all add: show_nat.simps digit_char_def)
  show ?thesis
    by (simp add: deck_tick_def deck_renderTimer_def p1_renderTimer_def deck_ACTIVITY_STEPS_def
          example_timer_def page_load_def clearInterval_def Let_def show_int_def js_rem_def z)
qed

section \<open>The two scripts compared\<close>

lemma nav_truncate_fields:
  assumes "nav.truncate s = nav.truncate p"
  shows "slides s = slides p" "currentIndex s = currentIndex p" "progress_fill s = progress_fill p"
    "slide_counter s = slide_counter p" "prev_btn s = prev_btn p" "next_btn s = next_btn p"
    "notes_content s = notes_content p"
  using assms by (simp_all add: nav.truncate_def)

lemma goToSlide_same_navigation:
  fixes s :: deckjs and p :: part001
  assumes "nav.truncate s = nav.truncate p"
  shows "map_completion nav.truncate (deck_goToSlide index s) =
         map_completion nav.truncate (p1_goToSlide index p)"
proof -
  note f = nav_truncate_fields[OF assms]
  show ?thesis
  proof (cases "index < 0 \<or> int (length (slides s)) \<le> index")
    case True
    then show ?thesis using assms
      by (simp add: deck_goToSlide_outside p1_goToSlide_outside f[symmetric])
  next
    case out: False
    show ?thesis
    proof (cases "length (slides s) \<le> currentIndex s")
      case True
      then show ?thesis using out assms
        by (simp add: deck_goToSlide_def p1_goToSlide_def f[symmetric])
    next
      case False
      then show ?thesis using out
        by (simp add: deck_goToSlide_def p1_goToSlide_def Let_def nav.truncate_def f[symmetric]
              deck_updateProgress_eq deck_updateCounter_eq deck_updateNotes_eq
              p1_updateProgress_eq p1_updateCounter_eq p1_updateNotes_eq)
    qed
  qed
qed

text \<open>
  C10. The two scripts carry the same navigation and timer core. From states that agree on
  the navigation variables and elements, \<open>goToSlide\<close>, \<open>nextSlide\<close> and \<open>prevSlide\<close> of the
  two scripts end the same way (normally or by the same exception) in states that agree
  on them again; progress, counter and the disabling of the two controls are computed by
  equal functions; on the shared timer state the tick, start, pause, reset, set-up, render
  and event functions of the two scripts are equal for every table of steps. The tables
  differ: the steps of deck.js last 180, 180, 120 and 120 seconds, those of the second
  script 60 seconds each.
\<close>

theorem engines_share_navigation_and_timer_core:
  fixes s :: deckjs and p :: part001 and n :: "'a nav_scheme"
  shows
    "(nav.truncate s = nav.truncate p \<longrightarrow>
        map_completion nav.truncate (deck_goToSlide index s) =
          map_completion nav.truncate (p1_goToSlide index p) \<and>
        map_completion nav.truncate (deck_nextSlide s) = map_completion nav.truncate (p1_nextSlide p) \<and>
        map_completion nav.truncate (deck_prevSlide s) = map_completion nav.truncate (p1_prevSlide p)) \<and>
     deck_updateProgress n = p1_updateProgress n \<and>
     deck_updateCounter n = p1_updateCounter n \<and>
     deck_updateNotes n = p1_updateNotes n \<and>
     deck_tick steps t = p1_tick steps t \<and>
     deck_startTimer t = p1_startTimer t \<and>
     deck_pauseTimer t = p1_pauseTimer t \<and>
     deck_resetTimer steps t = p1_resetTimer steps t \<and>
     deck_setupTimer steps t = p1_setupTimer steps t \<and>
     deck_renderTimer steps t = p1_renderTimer steps t \<and>
     deck_timer_event steps ev t = p1_timer_event steps ev t \<and>
     map duration deck_ACTIVITY_STEPS = [180, 180, 120, 120] \<and>
     map duration p1_ACTIVITY_STEPS = [60, 60, 60, 60]"
proof (intro conjI impI)
  assume a: "nav.truncate s = nav.truncate p"
  note f = nav_truncate_fields[OF a]
  show "map_completion nav.truncate (deck_goToSlide index s) =
          map_completion nav.truncate (p1_goToSlide index p)"
    by (rule goToSlide_same_navigation[OF a])
  show "map_completion nav.truncate (deck_nextSlide s) = map_completion nav.truncate (p1_nextSlide p)"
    unfolding deck_nextSlide_def p1_nextSlide_def f by (rule goToSlide_same_navigation[OF a])
  show "map_completion nav.truncate (deck_prevSlide s) = map_completion nav.truncate (p1_prevSlide p)"
    unfolding deck_prevSlide_def p1_prevSlide_def f by (rule goToSlide_same_navigation[OF a])
next
  show "deck_updateProgress n = p1_updateProgress n"
    by (simp add: deck_updateProgress_eq p1_updateProgress_eq)
  show "deck_updateCounter n = p1_updateCounter n"
    by (simp add: deck_updateCounter_eq p1_updateCounter_eq)
  show "deck_updateNotes n = p1_updateNotes n"
    by (simp add: deck_updateNotes_eq p1_updateNotes_eq)
  show "map duration deck_ACTIVITY_STEPS = [180, 180, 120, 120]"
    by (simp add: deck_ACTIVITY_STEPS_def)
  show "map duration p1_ACTIVITY_STEPS = [60, 60, 60, 60]"
    by (simp add: p1_ACTIVITY_STEPS_def)
qed (simp_all add: p1_tick_eq p1_startTimer_eq p1_pauseTimer_eq p1_resetTimer_eq p1_setupTimer_eq
       p1_renderTimer_eq p1_timer_event_eq)

text \<open>The theorem on the two example pages of ten slides at slide 9, which agree on navigation.\<close>

theorem engines_share_navigation_and_timer_core_witness:
  "nav.truncate (deck_example 10 9) = nav.truncate (p1_example 10 9) \<and>
   map_completion nav.truncate (deck_goToSlide 3 (deck_example 10 9)) =
     map_completion nav.truncate (p1_goToSlide 3 (p1_example 10 9)) \<and>
   map_completion nav.truncate (deck_nextSlide (deck_example 10 9)) =
     map_completion nav.truncate (p1_nextSlide (p1_example 10 9)) \<and>
   map_completion nav.truncate (deck_prevSlide (deck_example 10 9)) =
     map_completion nav.truncate (p1_prevSlide (p1_example 10 9))"
proof -
  have h: "nav.truncate (deck_example 10 9) = nav.truncate (p1_example 10 9)"
    by (simp add: nav.truncate_def deck_example_def p1_example_def)
  from engines_share_navigation_and_timer_core[of "deck_example 10 9" "p1_example 10 9" 3,
      THEN conjunct1, rule_format, OF h] h
  show ?thesis by (intro conjI) simp_all
qed

section \<open>Properties of the cue parser\<close>






















section \<open>Properties of the metadata loader\<close>

lemma hydrate_slot_falsy:
  assumes "\<not> truthy entry"
  shows "hydrate_slot entry sl =
           Normal (sl\<lparr>file_el := map_option (\<lambda>t. ''Not detected'') (file_el sl),
                      dur_el := map_option (\<lambda>t. ''Play to see'') (dur_el sl)\<rparr>)"
  using assms
  by (cases sl; cases "file_el sl"; cases "dur_el sl"; cases "player_el sl")
     (simp_all add: hydrate_slot_def bind_def Let_def)

lemma assign_text_convertible:
  "convertible (Some v) \<Longrightarrow> \<exists>t. assign_text v write sl = Normal (write t sl)"
  by (auto simp: convertible_def assign_text_def)

lemma hydrate_slot_convertible:
  assumes "convertible_record entry"
  shows "\<exists>sl'. hydrate_slot entry sl = Normal sl'"
proof (cases "truthy entry")
  case False
  then show ?thesis by (simp add: hydrate_slot_falsy)
next
  case True
  let ?f = "get_prop entry ''filename''" and ?d = "get_prop entry ''duration''"
    and ?r = "get_prop entry ''remote''"
  have c: "ToString (the ?f) \<noteq> None" if "truthy ?f"
    using that assms by (cases ?f) (simp_all add: convertible_record_def convertible_def)
  have d: "ToString (the ?d) \<noteq> None" if "truthy ?d"
    using that assms by (cases ?d) (simp_all add: convertible_record_def convertible_def)
  have r: "ToString (the ?r) \<noteq> None" if "truthy ?r"
    using that assms by (cases ?r) (simp_all add: convertible_record_def convertible_def)
  show ?thesis
    using True c d r
    by (auto simp: hydrate_slot_def bind_def assign_text_def Let_def split: option.splits)
qed

lemma hydrate_key_convertible:
  assumes "convertible_record (get_prop videos (case key of V1 \<Rightarrow> ''v1'' | V2 \<Rightarrow> ''v2'' | V3 \<Rightarrow> ''v3''))"
  shows "hydrate_key videos key doc =
           Normal (doc(key := state_of (hydrate_slot
             (get_prop videos (case key of V1 \<Rightarrow> ''v1'' | V2 \<Rightarrow> ''v2'' | V3 \<Rightarrow> ''v3'')) (doc key))))"
proof -
  from hydrate_slot_convertible[OF assms, of "doc key"] obtain sl' where
    "hydrate_slot (get_prop videos (case key of V1 \<Rightarrow> ''v1'' | V2 \<Rightarrow> ''v2'' | V3 \<Rightarrow> ''v3'')) (doc key)
       = Normal sl'" ..
  then show ?thesis by (simp add: hydrate_key_def)
qed

text \<open>With convertible records the loader hydrates each slot from its own record and its own elements.\<close>

lemma hydrateVideos_convertible:
  assumes "JSON_parse txt = Some data" "truthy (get_prop (Some data) ''videos'')"
    and "convertible_record (get_prop (get_prop (Some data) ''videos'') ''v1'')"
    and "convertible_record (get_prop (get_prop (Some data) ''videos'') ''v2'')"
    and "convertible_record (get_prop (get_prop (Some data) ''videos'') ''v3'')"
  shows "hydrateVideos JSON_parse (Some txt) doc =
           Normal (\<lambda>k. state_of (hydrate_slot
              (get_prop (get_prop (Some data) ''videos'') (case k of V1 \<Rightarrow> ''v1'' | V2 \<Rightarrow> ''v2'' | V3 \<Rightarrow> ''v3''))
              (doc k)))"
proof -
  let ?v = "get_prop (Some data) ''videos''"
  have t: "truthy (Some data)" using assms(2) by (cases data) simp_all
  have k1: "hydrate_key ?v V1 doc = Normal (doc(V1 := state_of (hydrate_slot (get_prop ?v ''v1'') (doc V1))))"
    using hydrate_key_convertible[of ?v V1 doc] assms(3) by simp
  have k2: "hydrate_key ?v V2 d = Normal (d(V2 := state_of (hydrate_slot (get_prop ?v ''v2'') (d V2))))" for d
    using hydrate_key_convertible[of ?v V2 d] assms(4) by simp
  have k3: "hydrate_key ?v V3 d = Normal (d(V3 := state_of (hydrate_slot (get_prop ?v ''v3'') (d V3))))" for d
    using hydrate_key_convertible[of ?v V3 d] assms(5) by simp
  have e: "hydrateVideos JSON_parse (Some txt) doc =
      Normal (doc(V1 := state_of (hydrate_slot (get_prop ?v ''v1'') (doc V1)),
                  V2 := state_of (hydrate_slot (get_prop ?v ''v2'') (doc V2)),
                  V3 := state_of (hydrate_slot (get_prop ?v ''v3'') (doc V3))))"
    using assms(1,2) t by (simp add: hydrateVideos_def bind_def Let_def k1 k2 k3)
  have "doc(V1 := state_of (hydrate_slot (get_prop ?v ''v1'') (doc V1)),
            V2 := state_of (hydrate_slot (get_prop ?v ''v2'') (doc V2)),
            V3 := state_of (hydrate_slot (get_prop ?v ''v3'') (doc V3))) =
        (\<lambda>k. state_of (hydrate_slot
              (get_prop ?v (case k of V1 \<Rightarrow> ''v1'' | V2 \<Rightarrow> ''v2'' | V3 \<Rightarrow> ''v3'')) (doc k)))"
    by (rule ext) (simp split: video_key.splits)
  with e show ?thesis by simp
qed

lemma hydrateVideos_no_metadata:
  "hydrateVideos JSON_parse None doc = Normal doc"
  "JSON_parse txt = None \<Longrightarrow> hydrateVideos JSON_parse (Some txt) doc = Normal doc"
  "JSON_parse txt = Some data \<Longrightarrow> \<not> truthy (get_prop (Some data) ''videos'') \<Longrightarrow>
     hydrateVideos JSON_parse (Some txt) doc = Normal doc"
  by (simp_all add: hydrateVideos_def)

lemma convertible_record_absent: "convertible_record None"
  by (simp add: convertible_record_def convertible_def)

lemma falsy_record_convertible: "\<not> truthy entry \<Longrightarrow> convertible_record entry"
proof (cases entry)
  case None
  then show ?thesis by (simp add: convertible_record_absent)
next
  case (Some v)
  assume "\<not> truthy entry"
  then show ?thesis using Some
    by (cases v) (simp_all add: convertible_record_def convertible_def)
qed

text \<open>
  C8 (amended). The loader returns normally and leaves the document as it was when the
  data element is missing, when the text does not parse, and when the parsed value has no
  truthy \<^verbatim>\<open>videos\<close> field. When the three records are convertible (each \<^verbatim>\<open>filename\<close>,
  \<^verbatim>\<open>duration\<close> and \<^verbatim>\<open>remote\<close> absent or a value with a conversion to a string, as in every
  payload of the build step), it returns normally and every slot is hydrated from its own
  record and its own elements alone. So, for a payload without a truthy \<^verbatim>\<open>v2\<close> record, the
  file element of \<^verbatim>\<open>v2\<close> reads \<^verbatim>\<open>Not detected\<close>, its duration element \<^verbatim>\<open>Play to see\<close>, its
  player is untouched, and the slots of \<^verbatim>\<open>v1\<close> and \<^verbatim>\<open>v3\<close> are what they are for a payload
  with the same \<^verbatim>\<open>v1\<close> and \<^verbatim>\<open>v3\<close> records and a convertible \<^verbatim>\<open>v2\<close> record.
\<close>

theorem loader_absorbs_missing_metadata:
  "hydrateVideos JSON_parse None doc = Normal doc \<and>
   (JSON_parse txt = None \<longrightarrow> hydrateVideos JSON_parse (Some txt) doc = Normal doc) \<and>
   (JSON_parse txt = Some data \<and> \<not> truthy (get_prop (Some data) ''videos'') \<longrightarrow>
      hydrateVideos JSON_parse (Some txt) doc = Normal doc) \<and>
   (JSON_parse txt = Some data \<and> truthy (get_prop (Some data) ''videos'') \<and>
    convertible_record (get_prop (get_prop (Some data) ''videos'') ''v1'') \<and>
    convertible_record (get_prop (get_prop (Some data) ''videos'') ''v2'') \<and>
    convertible_record (get_prop (get_prop (Some data) ''videos'') ''v3'') \<longrightarrow>
      (\<exists>doc'. hydrateVideos JSON_parse (Some txt) doc = Normal doc' \<and>
         (\<forall>k. doc' k =
            state_of (hydrate_slot
              (get_prop (get_prop (Some data) ''videos'') (case k of V1 \<Rightarrow> ''v1'' | V2 \<Rightarrow> ''v2'' | V3 \<Rightarrow> ''v3''))
              (doc k))))) \<and>
   (JSON_parse txt = Some data \<and> truthy (get_prop (Some data) ''videos'') \<and>
    \<not> truthy (get_prop (get_prop (Some data) ''videos'') ''v2'') \<and>
    convertible_record (get_prop (get_prop (Some data) ''videos'') ''v1'') \<and>
    convertible_record (get_prop (get_prop (Some data) ''videos'') ''v3'') \<and>
    JSON_parse txt2 = Some data2 \<and> truthy (get_prop (Some data2) ''videos'') \<and>
    convertible_record (get_prop (get_prop (Some data2) ''videos'') ''v2'') \<and>
    get_prop (get_prop (Some data2) ''videos'') ''v1'' = get_prop (get_prop (Some data) ''videos'') ''v1'' \<and>
    get_prop (get_prop (Some data2) ''videos'') ''v3'' = get_prop (get_prop (Some data) ''videos'') ''v3'' \<longrightarrow>
      (\<exists>doc' doc2. hydrateVideos JSON_parse (Some txt) doc = Normal doc' \<and>
         hydrateVideos JSON_parse (Some txt2) doc = Normal doc2 \<and>
         file_el (doc' V2) = map_option (\<lambda>t. ''Not detected'') (file_el (doc V2)) \<and>
         dur_el (doc' V2) = map_option (\<lambda>t. ''Play to see'') (dur_el (doc V2)) \<and>
         player_el (doc' V2) = player_el (doc V2) \<and>
         doc' V1 = doc2 V1 \<and> doc' V3 = doc2 V3))"
proof (intro conjI impI)
  show "hydrateVideos JSON_parse None doc = Normal doc"
    by (rule hydrateVideos_no_metadata(1))
next
  assume "JSON_parse txt = None"
  then show "hydrateVideos JSON_parse (Some txt) doc = Normal doc"
    by (rule hydrateVideos_no_metadata(2))
next
  assume "JSON_parse txt = Some data \<and> \<not> truthy (get_prop (Some data) ''videos'')"
  then show "hydrateVideos JSON_parse (Some txt) doc = Normal doc"
    using hydrateVideos_no_metadata(3)[of JSON_parse "txt" data doc] by simp
next
  assume a: "JSON_parse txt = Some data \<and> truthy (get_prop (Some data) ''videos'') \<and>
    convertible_record (get_prop (get_prop (Some data) ''videos'') ''v1'') \<and>
    convertible_record (get_prop (get_prop (Some data) ''videos'') ''v2'') \<and>
    convertible_record (get_prop (get_prop (Some data) ''videos'') ''v3'')"
  then have h: "JSON_parse txt = Some data" "truthy (get_prop (Some data) ''videos'')"
    "convertible_record (get_prop (get_prop (Some data) ''videos'') ''v1'')"
    "convertible_record (get_prop (get_prop (Some data) ''videos'') ''v2'')"
    "convertible_record (get_prop (get_prop (Some data) ''videos'') ''v3'')" by simp_all
  show "\<exists>doc'. hydrateVideos JSON_parse (Some txt) doc = Normal doc' \<and>
         (\<forall>k. doc' k =
            state_of (hydrate_slot
              (get_prop (get_prop (Some data) ''videos'') (case k of V1 \<Rightarrow> ''v1'' | V2 \<Rightarrow> ''v2'' | V3 \<Rightarrow> ''v3''))
              (doc k)))"
    unfolding hydrateVideos_convertible[of JSON_parse "txt" data, OF h] by simp
next
  assume a: "JSON_parse txt = Some data \<and> truthy (get_prop (Some data) ''videos'') \<and>
    \<not> truthy (get_prop (get_prop (Some data) ''videos'') ''v2'') \<and>
    convertible_record (get_prop (get_prop (Some data) ''videos'') ''v1'') \<and>
    convertible_record (get_prop (get_prop (Some data) ''videos'') ''v3'') \<and>
    JSON_parse txt2 = Some data2 \<and> truthy (get_prop (Some data2) ''videos'') \<and>
    convertible_record (get_prop (get_prop (Some data2) ''videos'') ''v2'') \<and>
    get_prop (get_prop (Some data2) ''videos'') ''v1'' = get_prop (get_prop (Some data) ''videos'') ''v1'' \<and>
    get_prop (get_prop (Some data2) ''videos'') ''v3'' = get_prop (get_prop (Some data) ''videos'') ''v3''"
  then have f: "\<not> truthy (get_prop (get_prop (Some data) ''videos'') ''v2'')"
    and same: "get_prop (get_prop (Some data2) ''videos'') ''v1'' = get_prop (get_prop (Some data) ''videos'') ''v1''"
      "get_prop (get_prop (Some data2) ''videos'') ''v3'' = get_prop (get_prop (Some data) ''videos'') ''v3''"
    by simp_all
  from a have h: "JSON_parse txt = Some data" "truthy (get_prop (Some data) ''videos'')"
    "convertible_record (get_prop (get_prop (Some data) ''videos'') ''v1'')"
    "convertible_record (get_prop (get_prop (Some data) ''videos'') ''v2'')"
    "convertible_record (get_prop (get_prop (Some data) ''videos'') ''v3'')"
    by (simp_all add: falsy_record_convertible)
  from a have h2: "JSON_parse txt2 = Some data2" "truthy (get_prop (Some data2) ''videos'')"
    "convertible_record (get_prop (get_prop (Some data2) ''videos'') ''v1'')"
    "convertible_record (get_prop (get_prop (Some data2) ''videos'') ''v2'')"
    "convertible_record (get_prop (get_prop (Some data2) ''videos'') ''v3'')"
    by simp_all
  show "\<exists>doc' doc2. hydrateVideos JSON_parse (Some txt) doc = Normal doc' \<and>
         hydrateVideos JSON_parse (Some txt2) doc = Normal doc2 \<and>
         file_el (doc' V2) = map_option (\<lambda>t. ''Not detected'') (file_el (doc V2)) \<and>
         dur_el (doc' V2) = map_option (\<lambda>t. ''Play to see'') (dur_el (doc V2)) \<and>
         player_el (doc' V2) = player_el (doc V2) \<and>
         doc' V1 = doc2 V1 \<and> doc' V3 = doc2 V3"
    unfolding hydrateVideos_convertible[of JSON_parse "txt" data, OF h]
      hydrateVideos_convertible[of JSON_parse txt2 data2, OF h2]
    by (simp add: same hydrate_slot_falsy[OF f])
qed

text \<open>
  The theorem on the example page: a text that does not parse, the empty object, and the
  build step's payload without and with the record \<^verbatim>\<open>v2\<close>.
\<close>

theorem loader_absorbs_missing_metadata_witness:
  "hydrateVideos example_parse (Some ''{'') example_video_dom = Normal example_video_dom \<and>
   hydrateVideos example_parse (Some ''{}'') example_video_dom = Normal example_video_dom \<and>
   (\<exists>doc' doc2.
      hydrateVideos example_parse (Some ''payload without v2'') example_video_dom = Normal doc' \<and>
      hydrateVideos example_parse (Some ''payload with v2'') example_video_dom = Normal doc2 \<and>
      file_el (doc' V2) = Some ''Not detected'' \<and> dur_el (doc' V2) = Some ''Play to see'' \<and>
      player_el (doc' V2) = None \<and> doc' V1 = doc2 V1 \<and> doc' V3 = doc2 V3)"
proof -
  have p: "example_parse ''{'' = None" "example_parse ''{}'' = Some (JObj [])"
    "example_parse ''payload without v2'' = Some payload_without_v2"
    "example_parse ''payload with v2'' = Some payload_with_v2"
    by (simp_all add: example_parse_def)
  have q: "\<not> truthy (get_prop (Some (JObj [])) ''videos'')" by simp
  have c: "truthy (get_prop (Some payload_without_v2) ''videos'')"
    "\<not> truthy (get_prop (get_prop (Some payload_without_v2) ''videos'') ''v2'')"
    "convertible_record (get_prop (get_prop (Some payload_without_v2) ''videos'') ''v1'')"
    "convertible_record (get_prop (get_prop (Some payload_without_v2) ''videos'') ''v3'')"
    "truthy (get_prop (Some payload_with_v2) ''videos'')"
    "convertible_record (get_prop (get_prop (Some payload_with_v2) ''videos'') ''v2'')"
    "get_prop (get_prop (Some payload_with_v2) ''videos'') ''v1'' =
       get_prop (get_prop (Some payload_without_v2) ''videos'') ''v1''"
    "get_prop (get_prop (Some payload_with_v2) ''videos'') ''v3'' =
       get_prop (get_prop (Some payload_without_v2) ''videos'') ''v3''"
    by (simp_all add: payload_without_v2_def payload_with_v2_def convertible_record_def convertible_def)
  have e: "file_el (example_video_dom V2) = Some []" "dur_el (example_video_dom V2) = Some []"
    "player_el (example_video_dom V2) = None"
    by (simp_all add: example_video_dom_def)
  note t1 = loader_absorbs_missing_metadata[of example_parse example_video_dom "''{''"]
  note t2 = loader_absorbs_missing_metadata[of example_parse example_video_dom "''{}''" "JObj []"]
  note t3 = loader_absorbs_missing_metadata[of example_parse example_video_dom "''payload without v2''"
              payload_without_v2 "''payload with v2''" payload_with_v2]
  from t1 p(1) have a: "hydrateVideos example_parse (Some ''{'') example_video_dom = Normal example_video_dom"
    by blast
  from t2 p(2) q have b: "hydrateVideos example_parse (Some ''{}'') example_video_dom = Normal example_video_dom"
    by blast
  from t3 p(3,4) c have "\<exists>doc' doc2.
      hydrateVideos example_parse (Some ''payload without v2'') example_video_dom = Normal doc' \<and>
      hydrateVideos example_parse (Some ''payload with v2'') example_video_dom = Normal doc2 \<and>
      file_el (doc' V2) = map_option (\<lambda>t. ''Not detected'') (file_el (example_video_dom V2)) \<and>
      dur_el (doc' V2) = map_option (\<lambda>t. ''Play to see'') (dur_el (example_video_dom V2)) \<and>
      player_el (doc' V2) = player_el (example_video_dom V2) \<and> doc' V1 = doc2 V1 \<and> doc' V3 = doc2 V3"
    by blast
  then have d: "\<exists>doc' doc2.
      hydrateVideos example_parse (Some ''payload without v2'') example_video_dom = Normal doc' \<and>
      hydrateVideos example_parse (Some ''payload with v2'') example_video_dom = Normal doc2 \<and>
      file_el (doc' V2) = Some ''Not detected'' \<and> dur_el (doc' V2) = Some ''Play to see'' \<and>
      player_el (doc' V2) = None \<and> doc' V1 = doc2 V1 \<and> doc' V3 = doc2 V3"
    unfolding e by simp
  from a b d show ?thesis by (intro conjI)
qed

text \<open>
  Against C8 as stated: a payload that parses, whose \<^verbatim>\<open>v1\<close> file name is an object with an
  own property \<^verbatim>\<open>toString\<close>. Assigning it to the text of the file element throws, the
  exception leaves the loader, and the slots of \<^verbatim>\<open>v2\<close> and \<^verbatim>\<open>v3\<close>, whose records are
  absent, never get their placeholders.
\<close>

theorem loader_throws_on_object_filename_counterexample:
  "hydrateVideos example_parse (Some ''payload with object filename'') example_video_dom =
     Throw TypeError example_video_dom \<and>
   file_el (example_video_dom V2) = Some []"
proof -
  have "example_video_dom(V1 := example_video_dom V1) = example_video_dom" by simp
  then show ?thesis
    by (simp add: hydrateVideos_def example_parse_def payload_with_object_filename_def hydrate_key_def
          hydrate_slot_def assign_text_def bind_def Let_def example_video_dom_def)
qed

section \<open>Properties of the narration player\<close>


lemma upd_control_fields [simp]:
  "controls (upd_control i f s) = (controls s)[i := f (controls s ! i)]"
  "activeNarrate (upd_control i f s) = activeNarrate s"
  "elements (upd_control i f s) = elements s"
  "timeouts (upd_control i f s) = timeouts s"
  "next_timeout (upd_control i f s) = next_timeout s"
  by (simp_all add: upd_control_def)

lemma clearHighlights_fields [simp]:
  "controls (clearHighlights s) = controls s"
  "activeNarrate (clearHighlights s) = activeNarrate s"
  "timeouts (clearHighlights s) = timeouts s"
  "next_timeout (clearHighlights s) = next_timeout s"
  "elements (clearHighlights s) = map (\<lambda>e. if is_sowhat e then e\<lparr>speaking := False\<rparr> else e) (elements s)"
  by (simp_all add: clearHighlights_def)

lemma clearHighlights_clears:
  "e \<in> set (elements (clearHighlights s)) \<Longrightarrow> is_sowhat e \<Longrightarrow> \<not> speaking e"
  by auto







subsection \<open>The narration invariant\<close>











subsection \<open>Claim about narration\<close>





end
